theory Spec2Isabelle
  imports Complex_Main
begin

section \<open>Data model\<close>

text \<open>
  The repository holds two versions of one program: \<^verbatim>\<open>main.go\<close>, which loads its policy
  from a file, and an earlier, environment-only version (\<^verbatim>\<open>unnamed/part_000\<close>). Definitions
  taken from \<^verbatim>\<open>main.go\<close> keep the source's names; those taken from the environment-only
  version carry the suffix \<open>_env\<close>. \<^verbatim>\<open>Created\<close> and \<^verbatim>\<open>Fullname\<close> are literally the same in
  both files and are modelled once.
\<close>

subsection \<open>Instants of the standard library\<close>

text \<open>
  A \<^verbatim>\<open>time.Time\<close> without monotonic reading is a count of seconds since 1 January of
  year 1 (a signed 64-bit integer) and a nanosecond offset. \<^verbatim>\<open>Time.After\<close> compares the
  seconds and then the nanoseconds. \<^verbatim>\<open>time.Unix(sec, 0)\<close> adds the constant
  \<^verbatim>\<open>unixToInternal\<close> to \<open>sec\<close> in 64-bit arithmetic.
\<close>

record Time =
  sec :: int
  nsec :: nat

definition Time_After :: "Time \<Rightarrow> Time \<Rightarrow> bool" where
  "Time_After t u = (sec t > sec u \<or> sec t = sec u \<and> nsec t > nsec u)"

definition unixToInternal :: int where
  "unixToInternal = 62135596800"

definition wrap_int64 :: "int \<Rightarrow> int" where
  "wrap_int64 n = (n + 2 ^ 63) mod 2 ^ 64 - 2 ^ 63"

definition time_Unix :: "int \<Rightarrow> Time" where
  "time_Unix s = \<lparr>sec = wrap_int64 (s + unixToInternal), nsec = 0\<rparr>"

subsection \<open>Conversion of a float64 to int64\<close>

text \<open>
  A finite float64 denotes a rational number, and JSON decoding yields finite values only.
  The conversion \<^verbatim>\<open>int64(x)\<close> discards the fraction (truncation toward zero). When the
  truncated value does not fit 64 bits the language leaves the result to the
  implementation: that result is the parameter \<open>oor\<close> of the model.
\<close>

type_synonym float64 = rat

definition trunc_zero :: "float64 \<Rightarrow> int" where
  "trunc_zero x = (if 0 \<le> x then \<lfloor>x\<rfloor> else \<lceil>x\<rceil>)"

definition fits_int64 :: "int \<Rightarrow> bool" where
  "fits_int64 n = (- (2 ^ 63) \<le> n \<and> n < 2 ^ 63)"

definition int64_of_float64 :: "(float64 \<Rightarrow> int) \<Rightarrow> float64 \<Rightarrow> int" where
  "int64_of_float64 oor x =
     (if fits_int64 (trunc_zero x) then trunc_zero x else oor x)"

subsection \<open>Structs\<close>

record AccessTokenResponse =
  AccessToken :: string
  ExpiresIn :: int
  Scope :: string
  TokenType :: string
  Error :: string
  ErrorDesc :: string

record Config =
  Username :: string
  Password :: string
  ClientID :: string
  ClientSecret :: string
  UserAgent :: string
  SkipCommentIDs :: "string list"
  SkipSubreddits :: "string list"
  Before :: Time
  MaxScore :: int
  ReplacementComment :: string
  DryRun :: bool

record Source =
  Score :: int
  CreatedUTC :: float64
  CanGild :: bool
  Date :: Time

record Comment =
  ID :: string
  Body :: string
  Permalink :: string
  Subreddit :: string
  Source :: Source

text \<open>
  \<^verbatim>\<open>Child\<close> wraps a comment, \<^verbatim>\<open>Response\<close> wraps the page data. The field \<^verbatim>\<open>Data\<close> of
  \<^verbatim>\<open>Response\<close> and the field \<^verbatim>\<open>Before\<close> of \<^verbatim>\<open>ResponseData\<close> are written \<open>PageData\<close> and
  \<open>BeforeMarker\<close> here, the names \<open>Data\<close> and \<open>Before\<close> being taken by \<^verbatim>\<open>Child\<close> and
  \<^verbatim>\<open>Config\<close>.
\<close>

record Child =
  Data :: Comment

record ResponseData =
  Children :: "Child list"
  After :: string
  BeforeMarker :: string

record Response =
  PageData :: ResponseData

subsection \<open>Observable events\<close>

text \<open>
  An error value is its message. Output is recorded with the format string of the source
  and the arguments before rendering. \<^verbatim>\<open>main.go\<close> prints with package \<^verbatim>\<open>fmt\<close>, the
  environment-only version with package \<^verbatim>\<open>log\<close>.
\<close>

type_synonym error = string

datatype arg =
  AStr string
| AInt int
| ATime Time
| AErr error
| AObj "(string \<times> string) list"

record request =
  Method :: string
  URL :: string
  Header :: "(string \<times> string) list"
  BasicAuth :: "(string \<times> string) option"
  Form :: "(string \<times> string) list option"

datatype event =
  Fmt_Printf string "arg list"
| Fmt_Println string
| Fmt_Print string
| Log_Printf string "arg list"
| Log_Println string
| Log_Fatalf string "arg list"
| Do request
| Send Comment
| Sleep nat

section \<open>Derived attributes of a comment\<close>

definition Created :: "(float64 \<Rightarrow> int) \<Rightarrow> Comment \<Rightarrow> Time" where
  "Created oor c = time_Unix (int64_of_float64 oor (CreatedUTC (Source c)))"

definition Fullname :: "Comment \<Rightarrow> string" where
  "Fullname c = ''t1_'' @ ID c"

section \<open>The retention filter\<close>

text \<open>
  \<^verbatim>\<open>ShouldSkip\<close> returns a boolean and prints the reason. The two loops return from the
  function at the first match; each is a recursion over the list that says whether it
  returned \<open>True\<close>, with the lines printed up to there.
\<close>

fun skip_ids_loop :: "string list \<Rightarrow> string \<Rightarrow> event list \<times> bool" where
  "skip_ids_loop [] cid = ([], False)"
| "skip_ids_loop (i # ids) cid =
     (if i = cid then ([Fmt_Printf ''Skipping due to `skip_comment_ids` filter\<newline>'' []], True)
      else skip_ids_loop ids cid)"

fun skip_subreddits_loop :: "string list \<Rightarrow> string \<Rightarrow> event list \<times> bool" where
  "skip_subreddits_loop [] sub = ([], False)"
| "skip_subreddits_loop (s # ss) sub =
     (if s = sub
      then ([Fmt_Printf ''Subreddit: %v\<newline>'' [AStr s],
             Fmt_Printf ''Skipping due to `skip_subreddits` filter\<newline>'' []], True)
      else (case skip_subreddits_loop ss sub of
              (out, r) \<Rightarrow> (Fmt_Printf ''Subreddit: %v\<newline>'' [AStr s] # out, r)))"

definition ShouldSkip :: "(float64 \<Rightarrow> int) \<Rightarrow> Comment \<Rightarrow> Config \<Rightarrow> event list \<times> bool" where
  "ShouldSkip oor c config =
     (case skip_ids_loop (SkipCommentIDs config) (ID c) of
        (out1, True) \<Rightarrow> (out1, True)
      | (out1, False) \<Rightarrow>
     (case skip_subreddits_loop (SkipSubreddits config) (Subreddit c) of
        (out2, True) \<Rightarrow> (out1 @ out2, True)
      | (out2, False) \<Rightarrow>
     if Time_After (Created oor c) (Before config)
     then (out1 @ out2 @
           [Fmt_Printf ''Skipping due to `before` filter (%s)\<newline>'' [ATime (Before config)]], True)
     else if Score (Source c) > MaxScore config
     then (out1 @ out2 @
           [Fmt_Printf ''Skipping due to `max_score` filter (%d)\<newline>'' [AInt (MaxScore config)]], True)
     else (out1 @ out2, False)))"

fun skip_ids_loop_env :: "string list \<Rightarrow> string \<Rightarrow> event list \<times> bool" where
  "skip_ids_loop_env [] cid = ([], False)"
| "skip_ids_loop_env (i # ids) cid =
     (if i = cid then ([Log_Printf ''Skipping due to `skip_comment_ids` filter'' []], True)
      else skip_ids_loop_env ids cid)"

fun skip_subreddits_loop_env :: "string list \<Rightarrow> string \<Rightarrow> event list \<times> bool" where
  "skip_subreddits_loop_env [] sub = ([], False)"
| "skip_subreddits_loop_env (s # ss) sub =
     (if s = sub then ([Log_Printf ''Skipping due to `skip_subreddits` filter'' []], True)
      else skip_subreddits_loop_env ss sub)"

definition ShouldSkip_env :: "(float64 \<Rightarrow> int) \<Rightarrow> Comment \<Rightarrow> Config \<Rightarrow> event list \<times> bool" where
  "ShouldSkip_env oor c config =
     (case skip_ids_loop_env (SkipCommentIDs config) (ID c) of
        (out1, True) \<Rightarrow> (out1, True)
      | (out1, False) \<Rightarrow>
     (case skip_subreddits_loop_env (SkipSubreddits config) (Subreddit c) of
        (out2, True) \<Rightarrow> (out1 @ out2, True)
      | (out2, False) \<Rightarrow>
     if Time_After (Created oor c) (Before config)
     then (out1 @ out2 @
           [Log_Printf ''Skipping due to `before` filter (%s)'' [ATime (Before config)]], True)
     else if Score (Source c) > MaxScore config
     then (out1 @ out2 @
           [Log_Printf ''Skipping due to `max_score` filter (%d)'' [AInt (MaxScore config)]], True)
     else (out1 @ out2, False)))"

text \<open>
  The disposition of the specification is read off the code: \<open>keep\<close> when \<^verbatim>\<open>ShouldSkip\<close>
  returns \<open>False\<close>, and otherwise the reason named by the last line it printed.
\<close>

datatype Disposition = keep | skip_by_id | skip_by_subcommunity | skip_by_date | skip_by_score

fun reason_of :: "event \<Rightarrow> Disposition option" where
  "reason_of (Fmt_Printf f as) =
     (if f = ''Skipping due to `skip_comment_ids` filter\<newline>'' then Some skip_by_id
      else if f = ''Skipping due to `skip_subreddits` filter\<newline>'' then Some skip_by_subcommunity
      else if f = ''Skipping due to `before` filter (%s)\<newline>'' then Some skip_by_date
      else if f = ''Skipping due to `max_score` filter (%d)\<newline>'' then Some skip_by_score
      else None)"
| "reason_of (Log_Printf f as) =
     (if f = ''Skipping due to `skip_comment_ids` filter'' then Some skip_by_id
      else if f = ''Skipping due to `skip_subreddits` filter'' then Some skip_by_subcommunity
      else if f = ''Skipping due to `before` filter (%s)'' then Some skip_by_date
      else if f = ''Skipping due to `max_score` filter (%d)'' then Some skip_by_score
      else None)"
| "reason_of _ = None"

fun disposition :: "event list \<times> bool \<Rightarrow> Disposition option" where
  "disposition (out, False) = Some keep"
| "disposition ([], True) = None"
| "disposition (out, True) = reason_of (last out)"

definition decide :: "(float64 \<Rightarrow> int) \<Rightarrow> Comment \<Rightarrow> Config \<Rightarrow> Disposition option" where
  "decide oor c config = disposition (ShouldSkip oor c config)"

definition decide_env :: "(float64 \<Rightarrow> int) \<Rightarrow> Comment \<Rightarrow> Config \<Rightarrow> Disposition option" where
  "decide_env oor c config = disposition (ShouldSkip_env oor c config)"

section \<open>The platform as the program sees it\<close>

text \<open>
  The outcome of each HTTP exchange is supplied from outside. \<^verbatim>\<open>http.NewRequest\<close> may
  refuse a method or a URL. A token reply is a failure of \<^verbatim>\<open>client.Do\<close>, a failure to
  read the body, a body that does not decode, a body that is one JSON value, or a JSON
  value followed by other data: \<^verbatim>\<open>json.Unmarshal\<close> (used by \<^verbatim>\<open>main.go\<close>) rejects the
  last, \<^verbatim>\<open>Decoder.Decode\<close> (used by the environment-only version) reads the value and
  leaves the rest. The listing endpoint answers the successive page requests with the
  successive elements of a list of replies.
\<close>

datatype token_reply =
  Token_Do_error error
| Token_read_error error
| Token_decode_error string error
| Token_json string AccessTokenResponse
| Token_json_trailing string AccessTokenResponse error

datatype edit_reply =
  Edit_Do_error error
| Edit_decode_error error
| Edit_json "(string \<times> string) list"

datatype get_reply =
  Get_Do_error error
| Get_decode_error error
| Get_json Response

record world =
  NewRequest_error :: "string \<Rightarrow> string \<Rightarrow> error option"
  token_endpoint :: "request \<Rightarrow> token_reply"
  edit_endpoint :: "request \<Rightarrow> edit_reply"
  del_endpoint :: "request \<Rightarrow> error option"

section \<open>The remediation workflow\<close>

definition edit_request :: "Comment \<Rightarrow> string \<Rightarrow> Config \<Rightarrow> request" where
  "edit_request c accessToken config =
     \<lparr>Method = ''POST'',
      URL = ''https://oauth.reddit.com/api/editusertext?raw_json=1'',
      Header = [(''Authorization'', ''Bearer '' @ accessToken),
                (''User-Agent'', UserAgent config),
                (''Content-Type'', ''application/x-www-form-urlencoded'')],
      BasicAuth = None,
      Form = Some [(''thing_id'', Fullname c), (''text'', ReplacementComment config)]\<rparr>"

definition del_request :: "Comment \<Rightarrow> string \<Rightarrow> Config \<Rightarrow> request" where
  "del_request c accessToken config =
     \<lparr>Method = ''POST'',
      URL = ''https://oauth.reddit.com/api/del'',
      Header = [(''Authorization'', ''Bearer '' @ accessToken),
                (''User-Agent'', UserAgent config),
                (''Content-Type'', ''application/x-www-form-urlencoded'')],
      BasicAuth = None,
      Form = Some [(''id'', Fullname c)]\<rparr>"

definition Delete :: "(float64 \<Rightarrow> int) \<Rightarrow> world \<Rightarrow> Comment \<Rightarrow> string \<Rightarrow> Config \<Rightarrow> event list" where
  "Delete oor w c accessToken config =
     (case ShouldSkip oor c config of (out, skip) \<Rightarrow>
        if skip \<or> DryRun config
        then out @ [Fmt_Println ''dryrun set or item set to be skipped, skipping deletion.'']
        else out @ [Fmt_Println ''Deleting...''] @
          (case NewRequest_error w ''POST'' ''https://oauth.reddit.com/api/del'' of
             Some err \<Rightarrow> [Fmt_Printf ''Failed to send delete request: %v\<newline>'' [AErr err]]
           | None \<Rightarrow>
               Do (del_request c accessToken config) #
               (case del_endpoint w (del_request c accessToken config) of
                  Some err \<Rightarrow> [Fmt_Printf ''Failed to delete comment: %v\<newline>'' [AErr err]]
                | None \<Rightarrow> [])))"

definition Edit :: "(float64 \<Rightarrow> int) \<Rightarrow> world \<Rightarrow> Comment \<Rightarrow> string \<Rightarrow> Config \<Rightarrow> event list" where
  "Edit oor w c accessToken config =
     (case ShouldSkip oor c config of (out, skip) \<Rightarrow>
        if skip \<or> DryRun config
        then out
        else out @ [Fmt_Println ''Editing...''] @
          (case NewRequest_error w ''POST'' ''https://oauth.reddit.com/api/editusertext?raw_json=1'' of
             Some err \<Rightarrow> [Fmt_Printf ''Failed to create request: %v\<newline>'' [AErr err]]
           | None \<Rightarrow>
               Do (edit_request c accessToken config) #
               (case edit_endpoint w (edit_request c accessToken config) of
                  Edit_Do_error err \<Rightarrow> [Fmt_Printf ''Failed to edit comment: %v\<newline>'' [AErr err]]
                | Edit_decode_error err \<Rightarrow> [Fmt_Printf ''Failed to decode response: %v\<newline>'' [AErr err]]
                | Edit_json res \<Rightarrow>
                    if map_of res ''jquery'' \<noteq> None
                    then [Fmt_Printf ''Edited successfully.\<newline>'' []]
                    else [Fmt_Printf ''Failed to edit: %v\<newline>'' [AObj res]])))"

definition Delete_env :: "(float64 \<Rightarrow> int) \<Rightarrow> world \<Rightarrow> Comment \<Rightarrow> string \<Rightarrow> Config \<Rightarrow> event list" where
  "Delete_env oor w c accessToken config =
     Log_Println ''Deleting...'' #
     (case ShouldSkip_env oor c config of (out, skip) \<Rightarrow>
        if skip \<or> DryRun config
        then out
        else out @
          (case NewRequest_error w ''POST'' ''https://oauth.reddit.com/api/del'' of
             Some err \<Rightarrow> [Log_Printf ''Failed to create request: %v'' [AErr err]]
           | None \<Rightarrow>
               Do (del_request c accessToken config) #
               (case del_endpoint w (del_request c accessToken config) of
                  Some err \<Rightarrow> [Log_Printf ''Failed to delete comment: %v'' [AErr err]]
                | None \<Rightarrow> [])))"

definition Edit_env :: "(float64 \<Rightarrow> int) \<Rightarrow> world \<Rightarrow> Comment \<Rightarrow> string \<Rightarrow> Config \<Rightarrow> event list" where
  "Edit_env oor w c accessToken config =
     Log_Println ''Editing...'' #
     (case ShouldSkip_env oor c config of (out, skip) \<Rightarrow>
        if skip \<or> DryRun config
        then out
        else out @
          (case NewRequest_error w ''POST'' ''https://oauth.reddit.com/api/editusertext?raw_json=1'' of
             Some err \<Rightarrow> [Log_Printf ''Failed to create request: %v'' [AErr err]]
           | None \<Rightarrow>
               Do (edit_request c accessToken config) #
               (case edit_endpoint w (edit_request c accessToken config) of
                  Edit_Do_error err \<Rightarrow> [Log_Printf ''Failed to edit comment: %v'' [AErr err]]
                | Edit_decode_error err \<Rightarrow> [Log_Printf ''Failed to decode response: %v'' [AErr err]]
                | Edit_json res \<Rightarrow>
                    if map_of res ''jquery'' \<noteq> None
                    then [Log_Printf ''Edited successfully.'' []]
                    else [Log_Printf ''Failed to edit: %v'' [AObj res]])))"

section \<open>The comment stream\<close>

text \<open>
  \<^verbatim>\<open>List\<close> starts a goroutine that sends the comments on an unbuffered channel and closes
  the channel when it returns. The model gives the goroutine's events in order (requests,
  lines printed, comments sent) and says whether the channel was closed. The channel is
  not closed only when the replies supplied run out while the loop asks for another page.
\<close>

definition listing_uri :: "Config \<Rightarrow> string \<Rightarrow> string" where
  "listing_uri config lastSeen =
     ''https://reddit.com/user/'' @ Username config @ ''/comments.json'' @
     (if lastSeen \<noteq> [] then ''?after='' @ lastSeen else [])"

definition listing_request :: "Config \<Rightarrow> string \<Rightarrow> request" where
  "listing_request config lastSeen =
     \<lparr>Method = ''GET'', URL = listing_uri config lastSeen,
      Header = [(''User-Agent'', UserAgent config)], BasicAuth = None, Form = None\<rparr>"

fun List_loop :: "world \<Rightarrow> Config \<Rightarrow> get_reply list \<Rightarrow> string \<Rightarrow> event list \<times> bool" where
  "List_loop w config [] lastSeen =
     (case NewRequest_error w ''GET'' (listing_uri config lastSeen) of
        Some err \<Rightarrow> ([Fmt_Printf ''Failed to create request: %v'' [AErr err]], True)
      | None \<Rightarrow> ([Do (listing_request config lastSeen)], False))"
| "List_loop w config (reply # replies) lastSeen =
     (case NewRequest_error w ''GET'' (listing_uri config lastSeen) of
        Some err \<Rightarrow> ([Fmt_Printf ''Failed to create request: %v'' [AErr err]], True)
      | None \<Rightarrow>
     (case reply of
        Get_Do_error err \<Rightarrow>
          ([Do (listing_request config lastSeen),
            Fmt_Printf ''Failed to fetch comments: %v'' [AErr err]], True)
      | Get_decode_error err \<Rightarrow>
          ([Do (listing_request config lastSeen),
            Fmt_Printf ''Failed to decode response: %v'' [AErr err]], True)
      | Get_json res \<Rightarrow>
          if length (Children (PageData res)) = 0 \<or> After (PageData res) = []
          then (Do (listing_request config lastSeen) #
                map (\<lambda>child. Send (Data child)) (Children (PageData res)), True)
          else (case List_loop w config replies (After (PageData res)) of
                  (evs, shut) \<Rightarrow>
                    (Do (listing_request config lastSeen) #
                     map (\<lambda>child. Send (Data child)) (Children (PageData res)) @ evs, shut))))"

definition List :: "world \<Rightarrow> Config \<Rightarrow> get_reply list \<Rightarrow> event list \<times> bool" where
  "List w config replies =
     (case List_loop w config replies [] of
        (evs, shut) \<Rightarrow> (Fmt_Println ''Fetching comments...'' # evs, shut))"

fun List_loop_env :: "world \<Rightarrow> Config \<Rightarrow> get_reply list \<Rightarrow> string \<Rightarrow> event list \<times> bool" where
  "List_loop_env w config [] lastSeen =
     (case NewRequest_error w ''GET'' (listing_uri config lastSeen) of
        Some err \<Rightarrow> ([Log_Printf ''Failed to create request: %v'' [AErr err]], True)
      | None \<Rightarrow> ([Do (listing_request config lastSeen)], False))"
| "List_loop_env w config (reply # replies) lastSeen =
     (case NewRequest_error w ''GET'' (listing_uri config lastSeen) of
        Some err \<Rightarrow> ([Log_Printf ''Failed to create request: %v'' [AErr err]], True)
      | None \<Rightarrow>
     (case reply of
        Get_Do_error err \<Rightarrow>
          ([Do (listing_request config lastSeen),
            Log_Printf ''Failed to fetch comments: %v'' [AErr err]], True)
      | Get_decode_error err \<Rightarrow>
          ([Do (listing_request config lastSeen),
            Log_Printf ''Failed to decode response: %v'' [AErr err]], True)
      | Get_json res \<Rightarrow>
          if length (Children (PageData res)) = 0 \<or> After (PageData res) = []
          then (Do (listing_request config lastSeen) #
                map (\<lambda>child. Send (Data child)) (Children (PageData res)), True)
          else (case List_loop_env w config replies (After (PageData res)) of
                  (evs, shut) \<Rightarrow>
                    (Do (listing_request config lastSeen) #
                     map (\<lambda>child. Send (Data child)) (Children (PageData res)) @ evs, shut))))"

definition List_env :: "world \<Rightarrow> Config \<Rightarrow> get_reply list \<Rightarrow> event list \<times> bool" where
  "List_env w config replies =
     (case List_loop_env w config replies [] of
        (evs, shut) \<Rightarrow> (Log_Println ''Fetching comments...'' # evs, shut))"

text \<open>The comments that the consumer receives are those sent, in order.\<close>

fun sent :: "event list \<Rightarrow> Comment list" where
  "sent [] = []"
| "sent (Send c # evs) = c # sent evs"
| "sent (e # evs) = sent evs"

fun requests :: "event list \<Rightarrow> request list" where
  "requests [] = []"
| "requests (Do r # evs) = r # requests evs"
| "requests (e # evs) = requests evs"

section \<open>Authentication\<close>

definition token_request :: "Config \<Rightarrow> request" where
  "token_request config =
     \<lparr>Method = ''POST'',
      URL = ''https://www.reddit.com/api/v1/access_token'',
      Header = [(''Content-Type'', ''application/x-www-form-urlencoded''),
                (''User-Agent'', UserAgent config)],
      BasicAuth = Some (ClientID config, ClientSecret config),
      Form = Some [(''grant_type'', ''password''), (''username'', Username config),
                   (''password'', Password config)]\<rparr>"

definition newAccessToken :: "world \<Rightarrow> Config \<Rightarrow> event list \<times> string \<times> error option" where
  "newAccessToken w config =
     (case NewRequest_error w ''POST'' ''https://www.reddit.com/api/v1/access_token'' of
        Some err \<Rightarrow> ([], [], Some err)
      | None \<Rightarrow>
     (case token_endpoint w (token_request config) of
        Token_Do_error err \<Rightarrow> ([Do (token_request config)], [], Some err)
      | Token_read_error err \<Rightarrow>
          ([Do (token_request config)], [], Some (''failed to read response body: '' @ err))
      | Token_decode_error body err \<Rightarrow>
          ([Do (token_request config)], [],
           Some (''unable to decode response: '' @ err @ ''\<newline>Response body: '' @ body))
      | Token_json_trailing body res err \<Rightarrow>
          ([Do (token_request config)], [],
           Some (''unable to decode response: '' @ err @ ''\<newline>Response body: '' @ body))
      | Token_json body res \<Rightarrow>
          if Error res \<noteq> []
          then ([Do (token_request config)], [],
                Some (''error in the response: '' @ ErrorDesc res))
          else ([Do (token_request config)], AccessToken res, None)))"

fun decoded_env :: "token_reply \<Rightarrow> error + AccessTokenResponse" where
  "decoded_env (Token_Do_error err) = Inl err"
| "decoded_env (Token_read_error err) = Inl err"
| "decoded_env (Token_decode_error body err) = Inl err"
| "decoded_env (Token_json body res) = Inr res"
| "decoded_env (Token_json_trailing body res err) = Inr res"

definition newAccessToken_env :: "world \<Rightarrow> Config \<Rightarrow> event list \<times> string \<times> error option" where
  "newAccessToken_env w config =
     (case NewRequest_error w ''POST'' ''https://www.reddit.com/api/v1/access_token'' of
        Some err \<Rightarrow> ([], [], Some err)
      | None \<Rightarrow>
     (case decoded_env (token_endpoint w (token_request config)) of
        Inl err \<Rightarrow> ([Do (token_request config)], [], Some err)
      | Inr res \<Rightarrow>
          if Error res \<noteq> []
          then ([Do (token_request config)], [], Some (ErrorDesc res))
          else ([Do (token_request config)], AccessToken res, None)))"

section \<open>The entry points\<close>

text \<open>
  A run is what the main goroutine did before the loop, what the producer goroutine did,
  what the main goroutine did in the loop, and how the process ended: \<open>Exit0\<close> when
  \<^verbatim>\<open>main\<close> returned, \<open>Exit1\<close> after \<^verbatim>\<open>log.Fatalf\<close>, \<open>Panicked\<close> after a nil dereference,
  \<open>Waiting\<close> when the producer still waits for a page.

  In \<^verbatim>\<open>main.go\<close> both error branches call \<^verbatim>\<open>fmt.Errorf\<close>, which builds an error value and
  prints nothing; the value is dropped and \<^verbatim>\<open>main\<close> goes on. After a failed
  \<^verbatim>\<open>configLoader\<close> the configuration is nil and \<^verbatim>\<open>newAccessToken\<close> dereferences it. The
  pacing sleep of \<^verbatim>\<open>main.go\<close> is commented out.

  The environment-only \<^verbatim>\<open>main\<close> builds its configuration from the environment, in an
  expression that is not well-formed as it stands; the run is modelled from the
  configuration on.
\<close>

datatype status = Exit0 | Exit1 | Panicked | Waiting

record run =
  startup :: "event list"
  producer :: "event list"
  consumer :: "event list"
  status :: status

definition fmt_Errorf_dropped :: "string \<Rightarrow> arg list \<Rightarrow> event list" where
  "fmt_Errorf_dropped f as = []"

fun main_loop :: "(float64 \<Rightarrow> int) \<Rightarrow> world \<Rightarrow> string \<Rightarrow> Config \<Rightarrow> Comment list \<Rightarrow> event list" where
  "main_loop oor w accessToken config [] = []"
| "main_loop oor w accessToken config (comment # comments) =
     Edit oor w comment accessToken config @
     Delete oor w comment accessToken config @
     main_loop oor w accessToken config comments"

definition main :: "(float64 \<Rightarrow> int) \<Rightarrow> world \<Rightarrow> get_reply list \<Rightarrow> error + Config \<Rightarrow> run" where
  "main oor w replies loaded =
     (case loaded of
        Inl err \<Rightarrow>
          \<lparr>startup = fmt_Errorf_dropped ''Error loading config: %v\<newline>'' [AErr err],
           producer = [], consumer = [], status = Panicked\<rparr>
      | Inr config \<Rightarrow>
     (case newAccessToken w config of (evs, accessToken, err) \<Rightarrow>
     (case List w config replies of (pevs, shut) \<Rightarrow>
        \<lparr>startup = evs @
           (case err of
              Some e \<Rightarrow> fmt_Errorf_dropped ''Failed to obtain access token: %v\<newline>'' [AErr e]
            | None \<Rightarrow> []),
         producer = pevs,
         consumer = main_loop oor w accessToken config (sent pevs),
         status = (if shut then Exit0 else Waiting)\<rparr>)))"

fun main_loop_env :: "(float64 \<Rightarrow> int) \<Rightarrow> world \<Rightarrow> string \<Rightarrow> Config \<Rightarrow> Comment list \<Rightarrow> event list" where
  "main_loop_env oor w accessToken config [] = []"
| "main_loop_env oor w accessToken config (comment # comments) =
     Edit_env oor w comment accessToken config @
     Delete_env oor w comment accessToken config @
     [Fmt_Print ''Sleeping 15 seconds\<newline>'', Sleep 15] @
     main_loop_env oor w accessToken config comments"

definition main_env :: "(float64 \<Rightarrow> int) \<Rightarrow> world \<Rightarrow> get_reply list \<Rightarrow> Config \<Rightarrow> run" where
  "main_env oor w replies config =
     (case newAccessToken_env w config of (evs, accessToken, err) \<Rightarrow>
     (case err of
        Some e \<Rightarrow>
          \<lparr>startup = evs @ [Log_Fatalf ''Failed to obtain access token: %v'' [AErr e]],
           producer = [], consumer = [], status = Exit1\<rparr>
      | None \<Rightarrow>
     (case List_env w config replies of (pevs, shut) \<Rightarrow>
        \<lparr>startup = evs,
         producer = pevs,
         consumer = main_loop_env oor w accessToken config (sent pevs),
         status = (if shut then Exit0 else Waiting)\<rparr>)))"

section \<open>Views of a run\<close>

text \<open>
  The properties below are stated on three views of an event list: the comments sent
  (\<open>sent\<close>), the requests handed to \<^verbatim>\<open>client.Do\<close> (\<open>requests\<close>), and the requests
  together with the pauses (\<open>paced\<close>).
\<close>

fun paced :: "event list \<Rightarrow> event list" where
  "paced [] = []"
| "paced (Do r # evs) = Do r # paced evs"
| "paced (Sleep n # evs) = Sleep n # paced evs"
| "paced (e # evs) = paced evs"

text \<open>
  A reply after which the loop of \<^verbatim>\<open>List\<close> asks for another page (a decoded page with at
  least one comment and a cursor), a reply after which it stops normally (a decoded
  page with no comment or no cursor), the comments and the cursor of a reply, and the
  events of fetching a sequence of pages one after the other, each request carrying the
  cursor of the page before.
\<close>

definition more_pages :: "get_reply \<Rightarrow> bool" where
  "more_pages r =
     (case r of Get_json res \<Rightarrow> Children (PageData res) \<noteq> [] \<and> After (PageData res) \<noteq> []
      | _ \<Rightarrow> False)"

definition last_page :: "get_reply \<Rightarrow> bool" where
  "last_page r =
     (case r of Get_json res \<Rightarrow> Children (PageData res) = [] \<or> After (PageData res) = []
      | _ \<Rightarrow> False)"

definition comments_of :: "get_reply \<Rightarrow> Comment list" where
  "comments_of r = (case r of Get_json res \<Rightarrow> map Data (Children (PageData res)) | _ \<Rightarrow> [])"

definition cursor_of :: "get_reply \<Rightarrow> string" where
  "cursor_of r = (case r of Get_json res \<Rightarrow> After (PageData res) | _ \<Rightarrow> [])"

fun page_events :: "Config \<Rightarrow> string \<Rightarrow> get_reply list \<Rightarrow> event list" where
  "page_events config cur [] = []"
| "page_events config cur (r # rs) =
     Do (listing_request config cur) # map Send (comments_of r) @
     page_events config (cursor_of r) rs"

fun next_cursor :: "string \<Rightarrow> get_reply list \<Rightarrow> string" where
  "next_cursor cur [] = cur"
| "next_cursor cur (r # rs) = next_cursor (cursor_of r) rs"


text \<open>
  The requests for a sequence of pages, each with the cursor of the page before, are
  all accepted by \<^verbatim>\<open>http.NewRequest\<close>.
\<close>

fun accepted :: "world \<Rightarrow> Config \<Rightarrow> string \<Rightarrow> get_reply list \<Rightarrow> bool" where
  "accepted w config cur [] = True"
| "accepted w config cur (r # rs) =
     (NewRequest_error w ''GET'' (listing_uri config cur) = None \<and>
      accepted w config (cursor_of r) rs)"

section \<open>Concrete inputs\<close>

text \<open>
  The inputs at which the theorems below are instantiated. \<open>oor_amd64\<close> is the result of
  an out-of-range conversion on amd64.
\<close>

definition oor_amd64 :: "float64 \<Rightarrow> int" where
  "oor_amd64 x = - (2 ^ 63)"

definition comment_of :: "string \<Rightarrow> string \<Rightarrow> int \<Rightarrow> float64 \<Rightarrow> Comment" where
  "comment_of i sub score created =
     \<lparr>ID = i, Body = ''text'', Permalink = ''/r/'' @ sub @ ''/comments/'' @ i,
      Subreddit = sub,
      Source = \<lparr>Score = score, CreatedUTC = created, CanGild = False,
                Date = \<lparr>sec = 0, nsec = 0\<rparr>\<rparr>\<rparr>"

definition policy0 :: Config where
  "policy0 =
     \<lparr>Username = ''snoo'', Password = ''foobar'', ClientID = ''123'', ClientSecret = ''456'',
      UserAgent = ''ShredditGoClient'', SkipCommentIDs = [''k1''],
      SkipSubreddits = [''pics'', ''mod_only''],
      Before = \<lparr>sec = 63535596800, nsec = 500\<rparr>, MaxScore = 5,
      ReplacementComment = ''gone'', DryRun = False\<rparr>"

text \<open>
  Three comments that \<open>policy0\<close> leaves for removal (older than the cutoff, low score,
  neither identifier nor sub-community preserved).
\<close>

definition old1 :: Comment where "old1 = comment_of ''c1'' ''x'' 1 1300000000"
definition old2 :: Comment where "old2 = comment_of ''c2'' ''x'' 2 1300000100.5"
definition old3 :: Comment where "old3 = comment_of ''c3'' ''y'' 0 1300000200"

text \<open>
  A decoded page, the listing of the example in the specification (two comments with
  cursor \<open>X\<close>, then an empty page), and a listing whose second request fails.
\<close>

definition page_of :: "Comment list \<Rightarrow> string \<Rightarrow> get_reply" where
  "page_of cs cursor =
     Get_json \<lparr>PageData = \<lparr>Children = map (\<lambda>c. \<lparr>Data = c\<rparr>) cs, After = cursor,
                            BeforeMarker = []\<rparr>\<rparr>"

definition two_pages :: "get_reply list" where
  "two_pages = [page_of [old1, old2] ''X'', page_of [] []]"


text \<open>
  A platform on which every exchange succeeds, one that answers the edit of the second
  comment without the success marker, and one whose token endpoint reports an error.
\<close>

definition world_ok :: world where
  "world_ok =
     \<lparr>NewRequest_error = (\<lambda>m u. None),
      token_endpoint = (\<lambda>r. Token_json ''{access_token: tok}''
         \<lparr>AccessToken = ''tok'', ExpiresIn = 3600, Scope = ''*'', TokenType = ''bearer'',
          Error = [], ErrorDesc = []\<rparr>),
      edit_endpoint = (\<lambda>r. Edit_json [(''jquery'', ''[]'')]),
      del_endpoint = (\<lambda>r. None)\<rparr>"

definition world_edit2_fails :: world where
  "world_edit2_fails =
     world_ok\<lparr>edit_endpoint :=
       (\<lambda>r. if Form r = Some [(''thing_id'', ''t1_c2''), (''text'', ''gone'')]
            then Edit_json [(''error'', ''403'')]
            else Edit_json [(''jquery'', ''[]'')])\<rparr>"

definition world_auth_error :: world where
  "world_auth_error =
     world_ok\<lparr>token_endpoint := (\<lambda>r. Token_json ''{error: invalid_grant}''
         \<lparr>AccessToken = [], ExpiresIn = 0, Scope = [], TokenType = [],
          Error = ''invalid_grant'', ErrorDesc = ''bad password''\<rparr>)\<rparr>"

text \<open>
  A platform whose \<^verbatim>\<open>http.NewRequest\<close> refuses a URL that holds a line feed, as the
  standard library refuses every control character; a listing whose first page carries
  a line feed as cursor; and a comment whose timestamp is beyond the range of a 64-bit
  integer.
\<close>

definition world_strict :: world where
  "world_strict =
     world_ok\<lparr>NewRequest_error :=
       (\<lambda>m u. if CHR 0x0A \<in> set u then Some ''net/url: invalid control character in URL''
              else None)\<rparr>"

definition control_cursor_pages :: "get_reply list" where
  "control_cursor_pages = [page_of [old1] [CHR 0x0A], page_of [old2] []]"

definition far_future :: Comment where
  "far_future = comment_of ''f'' ''x'' 1 10000000000000000000"

section \<open>Properties of the retention filter\<close>

lemma skip_ids_loop_eq:
  "skip_ids_loop ids cid =
     (if cid \<in> set ids
      then ([Fmt_Printf ''Skipping due to `skip_comment_ids` filter\<newline>'' []], True)
      else ([], False))"
  by (induction ids) auto

lemma skip_ids_loop_env_eq:
  "skip_ids_loop_env ids cid =
     (if cid \<in> set ids
      then ([Log_Printf ''Skipping due to `skip_comment_ids` filter'' []], True)
      else ([], False))"
  by (induction ids) auto

lemma skip_subreddits_loop_eq:
  "skip_subreddits_loop ss sub =
     (if sub \<in> set ss
      then (map (\<lambda>s. Fmt_Printf ''Subreddit: %v\<newline>'' [AStr s]) (takeWhile (\<lambda>s. s \<noteq> sub) ss) @
            [Fmt_Printf ''Subreddit: %v\<newline>'' [AStr sub],
             Fmt_Printf ''Skipping due to `skip_subreddits` filter\<newline>'' []], True)
      else (map (\<lambda>s. Fmt_Printf ''Subreddit: %v\<newline>'' [AStr s]) ss, False))"
  by (induction ss) auto

lemma skip_subreddits_loop_env_eq:
  "skip_subreddits_loop_env ss sub =
     (if sub \<in> set ss
      then ([Log_Printf ''Skipping due to `skip_subreddits` filter'' []], True)
      else ([], False))"
  by (induction ss) auto

lemma disposition_snoc:
  "disposition (out @ [e], True) = reason_of e"
  by (cases out) auto

lemma disposition_snoc2:
  "disposition (out @ [d, e], True) = reason_of e"
  by (cases out) auto

lemma decide_eq:
  "decide oor c config =
     Some (if ID c \<in> set (SkipCommentIDs config) then skip_by_id
           else if Subreddit c \<in> set (SkipSubreddits config) then skip_by_subcommunity
           else if Time_After (Created oor c) (Before config) then skip_by_date
           else if Score (Source c) > MaxScore config then skip_by_score
           else keep)"
  by (simp add: decide_def ShouldSkip_def skip_ids_loop_eq skip_subreddits_loop_eq
      disposition_snoc disposition_snoc2)

lemma decide_env_eq:
  "decide_env oor c config =
     Some (if ID c \<in> set (SkipCommentIDs config) then skip_by_id
           else if Subreddit c \<in> set (SkipSubreddits config) then skip_by_subcommunity
           else if Time_After (Created oor c) (Before config) then skip_by_date
           else if Score (Source c) > MaxScore config then skip_by_score
           else keep)"
  by (simp add: decide_env_def ShouldSkip_env_def skip_ids_loop_env_eq skip_subreddits_loop_env_eq
      disposition_snoc disposition_snoc2)

lemma ShouldSkip_keep: "snd (ShouldSkip oor c config) = (decide oor c config \<noteq> Some keep)"
  by (simp add: decide_eq) (simp add: ShouldSkip_def skip_ids_loop_eq skip_subreddits_loop_eq)

lemma ShouldSkip_env_keep: "snd (ShouldSkip_env oor c config) = (decide_env oor c config \<noteq> Some keep)"
  by (simp add: decide_env_eq) (simp add: ShouldSkip_env_def skip_ids_loop_env_eq skip_subreddits_loop_env_eq)

lemma trunc_zero_near: "\<bar>x - of_int (trunc_zero x)\<bar> < 1"
  unfolding trunc_zero_def by (cases "0 \<le> x") (simp_all, linarith+)

lemma trunc_zero_toward_zero: "\<bar>of_int (trunc_zero x) :: rat\<bar> \<le> \<bar>x\<bar>"
proof (cases "0 \<le> x")
  case True
  then have "0 \<le> \<lfloor>x\<rfloor>" by simp
  moreover have "of_int \<lfloor>x\<rfloor> \<le> x" by (rule of_int_floor_le)
  ultimately show ?thesis using True by (simp add: trunc_zero_def)
next
  case False
  then have "\<lceil>x\<rceil> \<le> 0" by (simp add: ceiling_le_zero)
  moreover have "x \<le> of_int \<lceil>x\<rceil>" by (rule le_of_int_ceiling)
  ultimately show ?thesis using False by (simp add: trunc_zero_def)
qed

lemma Time_After_irrefl: "\<not> Time_After t t"
  by (simp add: Time_After_def)

lemma Time_After_asym: "Time_After t u \<Longrightarrow> \<not> Time_After u t"
  by (auto simp: Time_After_def)

lemma Created_fits:
  "fits_int64 (trunc_zero (CreatedUTC (Source c))) \<Longrightarrow>
   Created oor c = time_Unix (trunc_zero (CreatedUTC (Source c)))"
  by (simp add: Created_def int64_of_float64_def)

lemma After_Created: "Time_After (Created oor c) b = (sec b < sec (Created oor c))"
  by (auto simp: Time_After_def Created_def time_Unix_def)

text \<open>
  Claim C1. The filter tries the four skip checks in a fixed order: identifier among the
  preserved identifiers, sub-community among the preserved sub-communities, creation
  instant after the cutoff, score above the maximum. The first check that matches gives
  the disposition, \<open>keep\<close> is the result only when none matches, and \<^verbatim>\<open>ShouldSkip\<close>
  returns true exactly when the disposition is not \<open>keep\<close>. A preserved identifier
  gives \<open>skip_by_id\<close> whatever the other fields are, and nothing but that reason is
  printed. Both versions of the program decide alike.
\<close>

theorem C1_first_match_wins:
  "decide oor c config =
     Some (if ID c \<in> set (SkipCommentIDs config) then skip_by_id
           else if Subreddit c \<in> set (SkipSubreddits config) then skip_by_subcommunity
           else if Time_After (Created oor c) (Before config) then skip_by_date
           else if Score (Source c) > MaxScore config then skip_by_score
           else keep)
   \<and> decide_env oor c config = decide oor c config
   \<and> snd (ShouldSkip oor c config) = (decide oor c config \<noteq> Some keep)
   \<and> snd (ShouldSkip_env oor c config) = (decide_env oor c config \<noteq> Some keep)
   \<and> (ID c \<in> set (SkipCommentIDs config) \<longrightarrow>
        ShouldSkip oor c config =
          ([Fmt_Printf ''Skipping due to `skip_comment_ids` filter\<newline>'' []], True) \<and>
        ShouldSkip_env oor c config =
          ([Log_Printf ''Skipping due to `skip_comment_ids` filter'' []], True))"
proof -
  have "ID c \<in> set (SkipCommentIDs config) \<Longrightarrow>
        ShouldSkip oor c config =
          ([Fmt_Printf ''Skipping due to `skip_comment_ids` filter\<newline>'' []], True)"
    by (simp add: ShouldSkip_def skip_ids_loop_eq)
  moreover have "ID c \<in> set (SkipCommentIDs config) \<Longrightarrow>
        ShouldSkip_env oor c config =
          ([Log_Printf ''Skipping due to `skip_comment_ids` filter'' []], True)"
    by (simp add: ShouldSkip_env_def skip_ids_loop_env_eq)
  moreover have "decide_env oor c config = decide oor c config"
    by (simp only: decide_eq decide_env_eq)
  ultimately show ?thesis
    using decide_eq [of oor c config] ShouldSkip_keep [of oor c config]
      ShouldSkip_env_keep [of oor c config] by blast
qed

text \<open>
  Claim C1 at a comment whose identifier is preserved and whose sub-community and score
  would match later checks too.
\<close>

theorem C1_first_match_wins_witness:
  "ID (comment_of ''k1'' ''mod_only'' 9 1700000000) \<in> set (SkipCommentIDs policy0)
   \<and> decide oor_amd64 (comment_of ''k1'' ''mod_only'' 9 1700000000) policy0 = Some skip_by_id
   \<and> ShouldSkip oor_amd64 (comment_of ''k1'' ''mod_only'' 9 1700000000) policy0 =
       ([Fmt_Printf ''Skipping due to `skip_comment_ids` filter\<newline>'' []], True)"
  using C1_first_match_wins [of oor_amd64 "comment_of ''k1'' ''mod_only'' 9 1700000000" policy0]
  by (simp add: comment_of_def policy0_def)

text \<open>
  Claim C4. For a comment that the identifier and sub-community checks do not match, the
  disposition is \<open>skip_by_date\<close> exactly when the creation instant is strictly after
  the cutoff. A comment created at the cutoff instant or before it passes the date check:
  its disposition is left to the score check alone.
\<close>

theorem C4_date_check_strict:
  assumes "ID c \<notin> set (SkipCommentIDs config)"
    and "Subreddit c \<notin> set (SkipSubreddits config)"
  shows "(decide oor c config = Some skip_by_date \<longleftrightarrow> Time_After (Created oor c) (Before config))
   \<and> (decide_env oor c config = Some skip_by_date \<longleftrightarrow> Time_After (Created oor c) (Before config))
   \<and> (Created oor c = Before config \<or> Time_After (Before config) (Created oor c) \<longrightarrow>
        decide oor c config = Some (if Score (Source c) > MaxScore config then skip_by_score else keep) \<and>
        decide_env oor c config = Some (if Score (Source c) > MaxScore config then skip_by_score else keep))"
proof -
  have "\<not> Time_After (Created oor c) (Before config)"
    if "Created oor c = Before config \<or> Time_After (Before config) (Created oor c)"
    using that Time_After_irrefl Time_After_asym by metis
  then show ?thesis
    using assms by (simp add: decide_eq decide_env_eq)
qed

text \<open>
  Claim C4 at the boundary: a comment created in the second of the cutoff is kept for
  removal, one created a second later is skipped by date.
\<close>

theorem C4_date_check_strict_witness:
  "ID (comment_of ''a'' ''x'' 1 1400000000.9) \<notin> set (SkipCommentIDs (policy0\<lparr>Before := time_Unix 1400000000\<rparr>))
   \<and> Subreddit (comment_of ''a'' ''x'' 1 1400000000.9) \<notin> set (SkipSubreddits (policy0\<lparr>Before := time_Unix 1400000000\<rparr>))
   \<and> Created oor_amd64 (comment_of ''a'' ''x'' 1 1400000000.9) = Before (policy0\<lparr>Before := time_Unix 1400000000\<rparr>)
   \<and> decide oor_amd64 (comment_of ''a'' ''x'' 1 1400000000.9) (policy0\<lparr>Before := time_Unix 1400000000\<rparr>) = Some keep
   \<and> decide oor_amd64 (comment_of ''a'' ''x'' 1 1400000001) (policy0\<lparr>Before := time_Unix 1400000000\<rparr>) = Some skip_by_date"
  using C4_date_check_strict [of "comment_of ''a'' ''x'' 1 1400000000.9" "policy0\<lparr>Before := time_Unix 1400000000\<rparr>" oor_amd64]
    C4_date_check_strict [of "comment_of ''a'' ''x'' 1 1400000001" "policy0\<lparr>Before := time_Unix 1400000000\<rparr>" oor_amd64]
  by (simp add: comment_of_def policy0_def Created_def int64_of_float64_def fits_int64_def
      trunc_zero_def time_Unix_def wrap_int64_def unixToInternal_def Time_After_def
      floor_eq_iff)

text \<open>
  Claim C10 does not hold for every comment. A timestamp of ten to the power 19
  seconds does not fit a 64-bit integer after truncation; on amd64 the conversion then
  yields the least 64-bit integer, the creation instant is not that of the truncated
  timestamp, and the comment, dated far in the future, passes the date check and is
  left for removal.
\<close>

theorem C10_out_of_range_counterexample:
  "\<not> fits_int64 (trunc_zero (CreatedUTC (Source far_future)))
   \<and> trunc_zero (CreatedUTC (Source far_future)) = 10000000000000000000
   \<and> Created oor_amd64 far_future = time_Unix (- (2 ^ 63))
   \<and> Created oor_amd64 far_future \<noteq> time_Unix (trunc_zero (CreatedUTC (Source far_future)))
   \<and> decide oor_amd64 far_future policy0 = Some keep"
proof -
  have t: "trunc_zero (CreatedUTC (Source far_future)) = 10000000000000000000"
    by (simp add: far_future_def comment_of_def trunc_zero_def)
  have n: "\<not> fits_int64 (trunc_zero (CreatedUTC (Source far_future)))"
    by (simp add: t fits_int64_def)
  have c: "Created oor_amd64 far_future = time_Unix (- (2 ^ 63))"
    using n by (simp add: Created_def int64_of_float64_def oor_amd64_def)
  have d: "time_Unix (- (2 ^ 63)) \<noteq> time_Unix 10000000000000000000"
    by (simp add: time_Unix_def wrap_int64_def unixToInternal_def)
  have f: "ID far_future = ''f''" "Subreddit far_future = ''x''" "Score (Source far_future) = 1"
    by (simp_all add: far_future_def comment_of_def)
  have k: "decide oor_amd64 far_future policy0 = Some keep"
    by (simp add: decide_eq c f time_Unix_def wrap_int64_def unixToInternal_def Time_After_def
        policy0_def)
  from t n c d k show ?thesis by simp
qed

text \<open>
  Claim C10, amended. For every comment whose timestamp, truncated toward zero, fits a
  signed 64-bit integer, the creation instant is \<^verbatim>\<open>time.Unix\<close> of the truncated
  timestamp: whole seconds counted from year 1 (the epoch offset added in 64-bit
  arithmetic) and no nanoseconds. Two comments whose timestamps have the same whole
  part then have the same creation instant and the same outcome of the date check.
  Outside that range the creation instant is \<^verbatim>\<open>time.Unix\<close> of whatever the
  implementation's conversion yields. In every case the truncated value is less than
  one second from the timestamp and not larger in magnitude, the creation instant has
  no nanoseconds, and the date check compares whole seconds only.
\<close>

theorem C10_created_truncates:
  "(fits_int64 (trunc_zero (CreatedUTC (Source c))) \<longrightarrow>
      Created oor c =
        \<lparr>sec = wrap_int64 (trunc_zero (CreatedUTC (Source c)) + 62135596800), nsec = 0\<rparr>
      \<and> (fits_int64 (trunc_zero (CreatedUTC (Source c)) + 62135596800) \<longrightarrow>
           sec (Created oor c) = trunc_zero (CreatedUTC (Source c)) + 62135596800)
      \<and> (trunc_zero (CreatedUTC (Source c')) = trunc_zero (CreatedUTC (Source c)) \<longrightarrow>
           Created oor c' = Created oor c \<and>
           Time_After (Created oor c') b = Time_After (Created oor c) b))
   \<and> (\<not> fits_int64 (trunc_zero (CreatedUTC (Source c))) \<longrightarrow>
        Created oor c = time_Unix (oor (CreatedUTC (Source c))))
   \<and> \<bar>CreatedUTC (Source c) - of_int (trunc_zero (CreatedUTC (Source c)))\<bar> < 1
   \<and> \<bar>of_int (trunc_zero (CreatedUTC (Source c))) :: rat\<bar> \<le> \<bar>CreatedUTC (Source c)\<bar>
   \<and> nsec (Created oor c) = 0
   \<and> Time_After (Created oor c) b = (sec b < sec (Created oor c))"
proof -
  have 1: "Created oor c =
        \<lparr>sec = wrap_int64 (trunc_zero (CreatedUTC (Source c)) + 62135596800), nsec = 0\<rparr>"
    if "fits_int64 (trunc_zero (CreatedUTC (Source c)))"
    using that by (simp add: Created_fits time_Unix_def unixToInternal_def)
  have 2: "sec (Created oor c) = trunc_zero (CreatedUTC (Source c)) + 62135596800"
    if "fits_int64 (trunc_zero (CreatedUTC (Source c)))"
      and "fits_int64 (trunc_zero (CreatedUTC (Source c)) + 62135596800)"
    using that by (simp add: 1 wrap_int64_def fits_int64_def)
  have 3: "Created oor c' = Created oor c"
    if "fits_int64 (trunc_zero (CreatedUTC (Source c)))"
      and "trunc_zero (CreatedUTC (Source c')) = trunc_zero (CreatedUTC (Source c))"
    using that by (simp add: Created_fits)
  have 4: "Created oor c = time_Unix (oor (CreatedUTC (Source c)))"
    if "\<not> fits_int64 (trunc_zero (CreatedUTC (Source c)))"
    using that by (simp add: Created_def int64_of_float64_def)
  have 5: "nsec (Created oor c) = 0"
    by (simp add: Created_def time_Unix_def)
  show ?thesis
    using 1 2 3 4 5 After_Created [of oor c b] trunc_zero_near [of "CreatedUTC (Source c)"]
      trunc_zero_toward_zero [of "CreatedUTC (Source c)"] by simp
qed

text \<open>
  Claim C10, amended, at two timestamps in the same second, at the truncation of a
  negative value, and at a timestamp out of range.
\<close>

theorem C10_created_truncates_witness:
  "fits_int64 (trunc_zero (CreatedUTC (Source (comment_of ''a'' ''x'' 1 1400000000.9))))
   \<and> fits_int64 (trunc_zero (CreatedUTC (Source (comment_of ''a'' ''x'' 1 1400000000.9))) + 62135596800)
   \<and> Created oor_amd64 (comment_of ''a'' ''x'' 1 1400000000.9) = \<lparr>sec = 63535596800, nsec = 0\<rparr>
   \<and> trunc_zero (CreatedUTC (Source (comment_of ''b'' ''y'' 2 1400000000.25))) =
       trunc_zero (CreatedUTC (Source (comment_of ''a'' ''x'' 1 1400000000.9)))
   \<and> Created oor_amd64 (comment_of ''b'' ''y'' 2 1400000000.25) =
       Created oor_amd64 (comment_of ''a'' ''x'' 1 1400000000.9)
   \<and> trunc_zero (- 3 / 2) = - 1
   \<and> \<not> fits_int64 (trunc_zero (CreatedUTC (Source far_future)))
   \<and> Created oor_amd64 far_future = time_Unix (oor_amd64 (CreatedUTC (Source far_future)))"
proof -
  have h: "fits_int64 (trunc_zero (CreatedUTC (Source (comment_of ''a'' ''x'' 1 1400000000.9))))"
    by code_simp
  have v: "trunc_zero (CreatedUTC (Source (comment_of ''a'' ''x'' 1 1400000000.9))) = 1400000000"
    by code_simp
  have e: "trunc_zero (CreatedUTC (Source (comment_of ''b'' ''y'' 2 1400000000.25))) =
           trunc_zero (CreatedUTC (Source (comment_of ''a'' ''x'' 1 1400000000.9)))"
    by code_simp
  have n: "trunc_zero (- 3 / 2) = - 1"
    by code_simp
  have o: "\<not> fits_int64 (trunc_zero (CreatedUTC (Source far_future)))"
    by (simp add: far_future_def comment_of_def trunc_zero_def fits_int64_def)
  from C10_created_truncates [of "comment_of ''a'' ''x'' 1 1400000000.9" oor_amd64
      "comment_of ''b'' ''y'' 2 1400000000.25" "\<lparr>sec = 0, nsec = 0\<rparr>"]
    C10_created_truncates [of far_future oor_amd64 far_future "\<lparr>sec = 0, nsec = 0\<rparr>"]
    h v e n o
  show ?thesis by (simp add: fits_int64_def wrap_int64_def)
qed

section \<open>Requests issued by the workflow\<close>

lemma requests_append: "requests (xs @ ys) = requests xs @ requests ys"
  by (induction xs rule: requests.induct) auto

lemma sent_append: "sent (xs @ ys) = sent xs @ sent ys"
  by (induction xs rule: sent.induct) auto

lemma requests_map_Send: "requests (map (\<lambda>x. Send (f x)) xs) = []"
  by (induction xs) auto

lemma requests_map_Printf: "requests (map (\<lambda>x. Fmt_Printf f (g x)) xs) = []"
  by (induction xs) auto

lemma requests_ShouldSkip: "requests (fst (ShouldSkip oor c config)) = []"
  by (simp add: ShouldSkip_def skip_ids_loop_eq skip_subreddits_loop_eq requests_append
      requests_map_Printf)

lemma requests_ShouldSkip_env: "requests (fst (ShouldSkip_env oor c config)) = []"
  by (simp add: ShouldSkip_env_def skip_ids_loop_env_eq skip_subreddits_loop_env_eq)

lemma requests_Edit:
  "requests (Edit oor w c tok config) =
     (if decide oor c config \<noteq> Some keep \<or> DryRun config then []
      else if NewRequest_error w ''POST'' ''https://oauth.reddit.com/api/editusertext?raw_json=1'' = None
      then [edit_request c tok config] else [])"
  using requests_ShouldSkip [of oor c config] ShouldSkip_keep [of oor c config]
  by (cases "ShouldSkip oor c config")
     (auto simp: Edit_def requests_append split: option.splits edit_reply.splits)

lemma requests_Delete:
  "requests (Delete oor w c tok config) =
     (if decide oor c config \<noteq> Some keep \<or> DryRun config then []
      else if NewRequest_error w ''POST'' ''https://oauth.reddit.com/api/del'' = None
      then [del_request c tok config] else [])"
  using requests_ShouldSkip [of oor c config] ShouldSkip_keep [of oor c config]
  by (cases "ShouldSkip oor c config")
     (auto simp: Delete_def requests_append split: option.splits)

lemma requests_Edit_env:
  "requests (Edit_env oor w c tok config) =
     (if decide_env oor c config \<noteq> Some keep \<or> DryRun config then []
      else if NewRequest_error w ''POST'' ''https://oauth.reddit.com/api/editusertext?raw_json=1'' = None
      then [edit_request c tok config] else [])"
  using requests_ShouldSkip_env [of oor c config] ShouldSkip_env_keep [of oor c config]
  by (cases "ShouldSkip_env oor c config")
     (auto simp: Edit_env_def requests_append split: option.splits edit_reply.splits)

lemma requests_Delete_env:
  "requests (Delete_env oor w c tok config) =
     (if decide_env oor c config \<noteq> Some keep \<or> DryRun config then []
      else if NewRequest_error w ''POST'' ''https://oauth.reddit.com/api/del'' = None
      then [del_request c tok config] else [])"
  using requests_ShouldSkip_env [of oor c config] ShouldSkip_env_keep [of oor c config]
  by (cases "ShouldSkip_env oor c config")
     (auto simp: Delete_env_def requests_append split: option.splits)

lemma keep_env: "decide_env oor c config = decide oor c config"
  by (simp only: decide_eq decide_env_eq)

lemma requests_workflow:
  assumes "NewRequest_error w ''POST'' ''https://oauth.reddit.com/api/editusertext?raw_json=1'' = None"
    and "NewRequest_error w ''POST'' ''https://oauth.reddit.com/api/del'' = None"
  shows "requests (Edit oor w c tok config) @ requests (Delete oor w c tok config) =
     (if decide oor c config = Some keep \<and> \<not> DryRun config
      then [edit_request c tok config, del_request c tok config] else [])"
    and "requests (Edit_env oor w c tok config) @ requests (Delete_env oor w c tok config) =
     (if decide oor c config = Some keep \<and> \<not> DryRun config
      then [edit_request c tok config, del_request c tok config] else [])"
  using assms
  by (simp_all add: requests_Edit requests_Delete requests_Edit_env requests_Delete_env
      decide_eq decide_env_eq)

lemma requests_main_loop:
  "requests (main_loop oor w tok config cs) =
     concat (map (\<lambda>c. requests (Edit oor w c tok config) @ requests (Delete oor w c tok config)) cs)"
  by (induction cs) (simp_all add: requests_append)

lemma requests_main_loop_env:
  "requests (main_loop_env oor w tok config cs) =
     concat (map (\<lambda>c. requests (Edit_env oor w c tok config) @
                       requests (Delete_env oor w c tok config)) cs)"
  by (induction cs) (simp_all add: requests_append)

lemma ShouldSkip_kept:
  assumes "decide oor c config = Some keep"
  shows "ShouldSkip oor c config =
     (map (\<lambda>s. Fmt_Printf ''Subreddit: %v\<newline>'' [AStr s]) (SkipSubreddits config), False)"
proof -
  from assms have "ID c \<notin> set (SkipCommentIDs config)"
      "Subreddit c \<notin> set (SkipSubreddits config)"
      "\<not> Time_After (Created oor c) (Before config)"
      "\<not> Score (Source c) > MaxScore config"
    by (auto simp: decide_eq split: if_splits)
  then show ?thesis
    by (simp add: ShouldSkip_def skip_ids_loop_eq skip_subreddits_loop_eq)
qed

lemma Edit_kept:
  assumes "decide oor c config = Some keep" and "\<not> DryRun config"
    and "NewRequest_error w ''POST'' ''https://oauth.reddit.com/api/editusertext?raw_json=1'' = None"
  shows "Edit oor w c tok config =
     map (\<lambda>s. Fmt_Printf ''Subreddit: %v\<newline>'' [AStr s]) (SkipSubreddits config) @
     [Fmt_Println ''Editing...'', Do (edit_request c tok config),
      (case edit_endpoint w (edit_request c tok config) of
         Edit_Do_error err \<Rightarrow> Fmt_Printf ''Failed to edit comment: %v\<newline>'' [AErr err]
       | Edit_decode_error err \<Rightarrow> Fmt_Printf ''Failed to decode response: %v\<newline>'' [AErr err]
       | Edit_json res \<Rightarrow>
           if map_of res ''jquery'' = None
           then Fmt_Printf ''Failed to edit: %v\<newline>'' [AObj res]
           else Fmt_Printf ''Edited successfully.\<newline>'' [])]"
  using assms(2,3)
  by (simp add: Edit_def ShouldSkip_kept [OF assms(1)] split: edit_reply.splits)

lemma Delete_kept:
  assumes "decide oor c config = Some keep" and "\<not> DryRun config"
    and "NewRequest_error w ''POST'' ''https://oauth.reddit.com/api/del'' = None"
  shows "Delete oor w c tok config =
     map (\<lambda>s. Fmt_Printf ''Subreddit: %v\<newline>'' [AStr s]) (SkipSubreddits config) @
     [Fmt_Println ''Deleting...'', Do (del_request c tok config)] @
     (case del_endpoint w (del_request c tok config) of
        Some err \<Rightarrow> [Fmt_Printf ''Failed to delete comment: %v\<newline>'' [AErr err]]
      | None \<Rightarrow> [])"
  using assms(2,3)
  by (simp add: Delete_def ShouldSkip_kept [OF assms(1)] split: option.splits)

lemma requests_explicit:
  "edit_request c tok config =
     \<lparr>Method = ''POST'', URL = ''https://oauth.reddit.com/api/editusertext?raw_json=1'',
      Header = [(''Authorization'', ''Bearer '' @ tok), (''User-Agent'', UserAgent config),
                (''Content-Type'', ''application/x-www-form-urlencoded'')],
      BasicAuth = None,
      Form = Some [(''thing_id'', ''t1_'' @ ID c), (''text'', ReplacementComment config)]\<rparr>"
  "del_request c tok config =
     \<lparr>Method = ''POST'', URL = ''https://oauth.reddit.com/api/del'',
      Header = [(''Authorization'', ''Bearer '' @ tok), (''User-Agent'', UserAgent config),
                (''Content-Type'', ''application/x-www-form-urlencoded'')],
      BasicAuth = None, Form = Some [(''id'', ''t1_'' @ ID c)]\<rparr>"
  by (simp_all add: edit_request_def del_request_def Fullname_def)

section \<open>The runs of the entry points\<close>

lemma main_Inr:
  "main oor w replies (Inr config) =
     \<lparr>startup = fst (newAccessToken w config) @
        (case snd (snd (newAccessToken w config)) of
           Some e \<Rightarrow> fmt_Errorf_dropped ''Failed to obtain access token: %v\<newline>'' [AErr e]
         | None \<Rightarrow> []),
      producer = fst (List w config replies),
      consumer = main_loop oor w (fst (snd (newAccessToken w config))) config
                   (sent (fst (List w config replies))),
      status = (if snd (List w config replies) then Exit0 else Waiting)\<rparr>"
  by (simp add: main_def split: prod.splits)

lemma main_env_ok:
  "snd (snd (newAccessToken_env w config)) = None \<Longrightarrow>
   main_env oor w replies config =
     \<lparr>startup = fst (newAccessToken_env w config),
      producer = fst (List_env w config replies),
      consumer = main_loop_env oor w (fst (snd (newAccessToken_env w config))) config
                   (sent (fst (List_env w config replies))),
      status = (if snd (List_env w config replies) then Exit0 else Waiting)\<rparr>"
  by (cases "newAccessToken_env w config"; cases "List_env w config replies")
     (simp add: main_env_def)

lemma main_env_failed:
  "snd (snd (newAccessToken_env w config)) = Some e \<Longrightarrow>
   main_env oor w replies config =
     \<lparr>startup = fst (newAccessToken_env w config) @
                 [Log_Fatalf ''Failed to obtain access token: %v'' [AErr e]],
      producer = [], consumer = [], status = Exit1\<rparr>"
  by (cases "newAccessToken_env w config") (simp add: main_env_def)

lemma consumer_main_env:
  "consumer (main_env oor w replies config) =
     (case snd (snd (newAccessToken_env w config)) of
        Some e \<Rightarrow> []
      | None \<Rightarrow> main_loop_env oor w (fst (snd (newAccessToken_env w config))) config
                  (sent (fst (List_env w config replies))))"
  by (simp add: main_env_def split: prod.splits option.splits)

lemma producer_main_env:
  "producer (main_env oor w replies config) =
     (case snd (snd (newAccessToken_env w config)) of
        Some e \<Rightarrow> []
      | None \<Rightarrow> fst (List_env w config replies))"
  by (simp add: main_env_def split: prod.splits option.splits)

lemma List_loop_GET:
  "List_loop w config rs ls = (evs, shut) \<Longrightarrow> r \<in> set (requests evs) \<Longrightarrow> Method r = ''GET''"
proof (induction rs arbitrary: ls evs shut)
  case Nil
  then show ?case
    by (auto simp: listing_request_def split: option.splits)
next
  case (Cons reply rs)
  then show ?case
    by (auto simp: listing_request_def requests_append requests_map_Send
        split: option.splits get_reply.splits if_splits prod.splits)
qed

lemma List_loop_env_GET:
  "List_loop_env w config rs ls = (evs, shut) \<Longrightarrow> r \<in> set (requests evs) \<Longrightarrow> Method r = ''GET''"
proof (induction rs arbitrary: ls evs shut)
  case Nil
  then show ?case
    by (auto simp: listing_request_def split: option.splits)
next
  case (Cons reply rs)
  then show ?case
    by (auto simp: listing_request_def requests_append requests_map_Send
        split: option.splits get_reply.splits if_splits prod.splits)
qed

lemma List_GET: "r \<in> set (requests (fst (List w config rs))) \<Longrightarrow> Method r = ''GET''"
  by (cases "List_loop w config rs []") (auto simp: List_def dest: List_loop_GET)

lemma List_env_GET: "r \<in> set (requests (fst (List_env w config rs))) \<Longrightarrow> Method r = ''GET''"
  by (cases "List_loop_env w config rs []") (auto simp: List_env_def dest: List_loop_env_GET)

lemma List_loop_world:
  "NewRequest_error w' = NewRequest_error w \<Longrightarrow>
   List_loop w' config rs ls = List_loop w config rs ls"
  by (induction rs arbitrary: ls) (simp_all split: option.splits get_reply.splits)

lemma List_loop_env_world:
  "NewRequest_error w' = NewRequest_error w \<Longrightarrow>
   List_loop_env w' config rs ls = List_loop_env w config rs ls"
  by (induction rs arbitrary: ls) (simp_all split: option.splits get_reply.splits)

lemma List_world:
  "List (w\<lparr>edit_endpoint := f, del_endpoint := g\<rparr>) config rs = List w config rs"
  by (simp add: List_def List_loop_world [of "w\<lparr>edit_endpoint := f, del_endpoint := g\<rparr>" w])

lemma List_env_world:
  "List_env (w\<lparr>edit_endpoint := f, del_endpoint := g\<rparr>) config rs = List_env w config rs"
  by (simp add: List_env_def
      List_loop_env_world [of "w\<lparr>edit_endpoint := f, del_endpoint := g\<rparr>" w])

lemma newAccessToken_world:
  "newAccessToken (w\<lparr>edit_endpoint := f, del_endpoint := g\<rparr>) config = newAccessToken w config"
  by (simp add: newAccessToken_def split: option.splits)

lemma newAccessToken_env_world:
  "newAccessToken_env (w\<lparr>edit_endpoint := f, del_endpoint := g\<rparr>) config =
   newAccessToken_env w config"
  by (simp add: newAccessToken_env_def split: option.splits)

lemma requests_consumer_world:
  "requests (consumer (main oor (w\<lparr>edit_endpoint := f, del_endpoint := g\<rparr>) replies loaded)) =
   requests (consumer (main oor w replies loaded))"
proof (cases loaded)
  case (Inl err)
  then show ?thesis by (simp add: main_def)
next
  case (Inr config)
  then show ?thesis
    by (simp add: main_Inr List_world newAccessToken_world requests_main_loop
        requests_Edit requests_Delete cong: if_cong)
qed

lemma producer_status_world:
  "producer (main oor (w\<lparr>edit_endpoint := f, del_endpoint := g\<rparr>) replies loaded) =
   producer (main oor w replies loaded) \<and>
   status (main oor (w\<lparr>edit_endpoint := f, del_endpoint := g\<rparr>) replies loaded) =
   status (main oor w replies loaded)"
proof (cases loaded)
  case (Inl err)
  then show ?thesis by (simp add: main_def)
next
  case (Inr config)
  then show ?thesis
    by (simp add: main_Inr List_world)
qed

lemma List_loop_same:
  "requests (fst (List_loop_env w config rs cur)) = requests (fst (List_loop w config rs cur))
   \<and> sent (fst (List_loop_env w config rs cur)) = sent (fst (List_loop w config rs cur))
   \<and> snd (List_loop_env w config rs cur) = snd (List_loop w config rs cur)"
proof (induction rs arbitrary: cur)
  case Nil
  then show ?case by (simp split: option.splits)
next
  case (Cons r rs)
  show ?case
  proof (cases "NewRequest_error w ''GET'' (listing_uri config cur)")
    case (Some err)
    then show ?thesis by simp
  next
    case None
    show ?thesis
    proof (cases r)
      case (Get_json res)
      with None Cons [of "After (PageData res)"] show ?thesis
        by (cases "List_loop w config rs (After (PageData res))";
            cases "List_loop_env w config rs (After (PageData res))")
           (simp add: requests_append sent_append)
    qed (use None in simp_all)
  qed
qed

lemma List_same:
  "requests (fst (List_env w config rs)) = requests (fst (List w config rs))
   \<and> sent (fst (List_env w config rs)) = sent (fst (List w config rs))
   \<and> snd (List_env w config rs) = snd (List w config rs)"
  using List_loop_same [of w config rs "[]"]
  by (cases "List_loop w config rs []"; cases "List_loop_env w config rs []")
     (simp add: List_def List_env_def)

lemma newAccessToken_same:
  "snd (snd (newAccessToken w config)) = None \<Longrightarrow>
   newAccessToken_env w config = newAccessToken w config"
  by (auto simp: newAccessToken_def newAccessToken_env_def
      split: option.splits token_reply.splits if_splits)

section \<open>Pages and the stream\<close>

lemma sent_map_Send_id: "sent (map Send cs) = cs"
  by (induction cs) auto

lemma requests_map_Send_id: "requests (map Send cs) = []"
  by (induction cs) auto

lemma sent_page_events: "sent (page_events config cur rs) = concat (map comments_of rs)"
  by (induction rs arbitrary: cur) (simp_all add: sent_append sent_map_Send_id)

lemma requests_page_events:
  "requests (page_events config cur (rs @ [r])) =
     map (listing_request config) (cur # map cursor_of rs)"
  by (induction rs arbitrary: cur) (simp_all add: requests_append requests_map_Send_id)


lemma page_events_append:
  "page_events config cur (rs @ ss) =
     page_events config cur rs @ page_events config (next_cursor cur rs) ss"
  by (induction rs arbitrary: cur) simp_all



lemma List_loop_last:
  assumes "NewRequest_error w ''GET'' (listing_uri config cur) = None"
    and "last_page fin"
  shows "List_loop w config (fin # rest) cur = (page_events config cur [fin], True)"
    and "List_loop_env w config (fin # rest) cur = (page_events config cur [fin], True)"
  using assms
  by (auto simp: last_page_def comments_of_def split: get_reply.splits)



lemma List_loop_pages_accepted:
  assumes "list_all more_pages pre" and "accepted w config cur pre"
  shows "List_loop w config (pre @ rs) cur =
     (case List_loop w config rs (next_cursor cur pre) of
        (evs, shut) \<Rightarrow> (page_events config cur pre @ evs, shut))"
    and "List_loop_env w config (pre @ rs) cur =
     (case List_loop_env w config rs (next_cursor cur pre) of
        (evs, shut) \<Rightarrow> (page_events config cur pre @ evs, shut))"
  using assms
proof (induction pre arbitrary: cur)
  case Nil
  { case 1 then show ?case by simp }
  { case 2 then show ?case by simp }
next
  case (Cons r pre)
  { case 1
    then obtain res where r: "r = Get_json res" "Children (PageData res) \<noteq> []"
        "After (PageData res) \<noteq> []"
      by (auto simp: more_pages_def split: get_reply.splits)
    from 1 have "list_all more_pages pre" "accepted w config (After (PageData res)) pre"
      and ok: "NewRequest_error w ''GET'' (listing_uri config cur) = None"
      using r by (simp_all add: cursor_of_def)
    from Cons.IH(1) [OF this(1,2)] r ok
    show ?case
      by (simp add: comments_of_def cursor_of_def split: prod.splits) }
  { case 2
    then obtain res where r: "r = Get_json res" "Children (PageData res) \<noteq> []"
        "After (PageData res) \<noteq> []"
      by (auto simp: more_pages_def split: get_reply.splits)
    from 2 have "list_all more_pages pre" "accepted w config (After (PageData res)) pre"
      and ok: "NewRequest_error w ''GET'' (listing_uri config cur) = None"
      using r by (simp_all add: cursor_of_def)
    from Cons.IH(2) [OF this(1,2)] r ok
    show ?case
      by (simp add: comments_of_def cursor_of_def split: prod.splits) }
qed

lemma List_loop_refused:
  assumes "NewRequest_error w ''GET'' (listing_uri config cur) = Some err"
  shows "List_loop w config rs cur =
           ([Fmt_Printf ''Failed to create request: %v'' [AErr err]], True)"
    and "List_loop_env w config rs cur =
           ([Log_Printf ''Failed to create request: %v'' [AErr err]], True)"
  using assms by (cases rs; simp)+

lemma requests_page_events_butlast:
  "requests (page_events config cur rs) =
     map (listing_request config) (butlast (cur # map cursor_of rs))"
  by (induction rs arbitrary: cur) (simp_all add: requests_append requests_map_Send_id)

lemma listing_request_explicit:
  "listing_request config =
     (\<lambda>cur. \<lparr>Method = ''GET'',
             URL = ''https://reddit.com/user/'' @ Username config @ ''/comments.json'' @
                   (if cur = [] then [] else ''?after='' @ cur),
             Header = [(''User-Agent'', UserAgent config)], BasicAuth = None, Form = None\<rparr>)"
  by (rule ext) (simp add: listing_request_def listing_uri_def)

section \<open>Pacing\<close>

lemma paced_append: "paced (xs @ ys) = paced xs @ paced ys"
  by (induction xs rule: paced.induct) auto

lemma paced_no_Sleep: "\<forall>n. Sleep n \<notin> set evs \<Longrightarrow> paced evs = map Do (requests evs)"
  by (induction evs rule: paced.induct) auto

lemma no_Sleep_ShouldSkip: "Sleep n \<notin> set (fst (ShouldSkip oor c config))"
  by (auto simp: ShouldSkip_def skip_ids_loop_eq skip_subreddits_loop_eq)

lemma no_Sleep_ShouldSkip_env: "Sleep n \<notin> set (fst (ShouldSkip_env oor c config))"
  by (auto simp: ShouldSkip_env_def skip_ids_loop_env_eq skip_subreddits_loop_env_eq)

lemma no_Sleep_Edit: "Sleep n \<notin> set (Edit oor w c tok config)"
  using no_Sleep_ShouldSkip [of n oor c config]
  by (cases "ShouldSkip oor c config")
     (auto simp: Edit_def split: option.splits edit_reply.splits)

lemma no_Sleep_Delete: "Sleep n \<notin> set (Delete oor w c tok config)"
  using no_Sleep_ShouldSkip [of n oor c config]
  by (cases "ShouldSkip oor c config")
     (auto simp: Delete_def split: option.splits)

lemma no_Sleep_Edit_env: "Sleep n \<notin> set (Edit_env oor w c tok config)"
  using no_Sleep_ShouldSkip_env [of n oor c config]
  by (cases "ShouldSkip_env oor c config")
     (auto simp: Edit_env_def split: option.splits edit_reply.splits)

lemma no_Sleep_Delete_env: "Sleep n \<notin> set (Delete_env oor w c tok config)"
  using no_Sleep_ShouldSkip_env [of n oor c config]
  by (cases "ShouldSkip_env oor c config")
     (auto simp: Delete_env_def split: option.splits)

lemma no_Sleep_main_loop: "Sleep n \<notin> set (main_loop oor w tok config cs)"
  by (induction cs) (simp_all add: no_Sleep_Edit no_Sleep_Delete)

lemma no_Sleep_main: "Sleep n \<notin> set (consumer (main oor w replies loaded))"
proof (cases loaded)
  case (Inl err)
  then show ?thesis by (simp add: main_def)
next
  case (Inr config)
  then show ?thesis by (simp add: main_Inr no_Sleep_main_loop)
qed

lemma paced_workflow:
  "paced (Edit oor w c tok config) = map Do (requests (Edit oor w c tok config))"
  "paced (Delete oor w c tok config) = map Do (requests (Delete oor w c tok config))"
  "paced (Edit_env oor w c tok config) = map Do (requests (Edit_env oor w c tok config))"
  "paced (Delete_env oor w c tok config) = map Do (requests (Delete_env oor w c tok config))"
  by (rule paced_no_Sleep, simp add: no_Sleep_Edit no_Sleep_Delete no_Sleep_Edit_env
      no_Sleep_Delete_env)+

lemma paced_main_loop:
  "paced (main_loop oor w tok config cs) = map Do (requests (main_loop oor w tok config cs))"
  by (rule paced_no_Sleep) (simp add: no_Sleep_main_loop)

lemma paced_main_loop_env:
  "paced (main_loop_env oor w tok config cs) =
     concat (map (\<lambda>c. map Do (requests (Edit_env oor w c tok config) @
                               requests (Delete_env oor w c tok config)) @ [Sleep 15]) cs)"
proof (induction cs)
  case Nil
  then show ?case by simp
next
  case (Cons c cs)
  have "paced (Edit_env oor w c tok config) = map Do (requests (Edit_env oor w c tok config))"
    by (rule paced_no_Sleep) (simp add: no_Sleep_Edit_env)
  moreover have "paced (Delete_env oor w c tok config) =
      map Do (requests (Delete_env oor w c tok config))"
    by (rule paced_no_Sleep) (simp add: no_Sleep_Delete_env)
  ultimately show ?case
    using Cons by (simp add: paced_append)
qed

lemma map_Do_concat:
  "map Do (concat (map f cs)) = concat (map (\<lambda>c. map Do (f c)) cs)"
  by (induction cs) auto

lemma paced_main_loop_env_requests:
  assumes "NewRequest_error w ''POST'' ''https://oauth.reddit.com/api/editusertext?raw_json=1'' = None"
    and "NewRequest_error w ''POST'' ''https://oauth.reddit.com/api/del'' = None"
  shows "paced (main_loop_env oor w tok config cs) =
       concat (map (\<lambda>c. (if decide oor c config = Some keep \<and> \<not> DryRun config
                          then [Do (edit_request c tok config), Do (del_request c tok config)]
                          else []) @ [Sleep 15]) cs)"
  by (simp add: paced_main_loop_env requests_workflow(2) [OF assms] if_distrib cong: if_cong)

lemma paced_subset: "e \<in> set (paced evs) \<Longrightarrow> e \<in> set evs"
  by (induction evs rule: paced.induct) auto

section \<open>Evaluation at the concrete inputs\<close>

lemmas fixture_defs = old1_def old2_def old3_def two_pages_def page_of_def comment_of_def
  policy0_def world_ok_def world_edit2_fails_def oor_amd64_def

lemmas run_defs = main_def List_def newAccessToken_def token_request_def
  listing_request_def listing_uri_def Edit_def Delete_def ShouldSkip_def Created_def
  int64_of_float64_def fits_int64_def trunc_zero_def time_Unix_def wrap_int64_def
  unixToInternal_def Time_After_def edit_request_def del_request_def Fullname_def
  fmt_Errorf_dropped_def

lemma world_ok_NewRequest: "NewRequest_error world_ok = (\<lambda>m u. None)"
  by (simp add: world_ok_def)

lemma world_edit2_fails_NewRequest: "NewRequest_error world_edit2_fails = (\<lambda>m u. None)"
  by (simp add: world_edit2_fails_def world_ok_def)

lemma world_ok_token: "newAccessToken world_ok policy0 = ([Do (token_request policy0)], ''tok'', None)"
  by (simp add: newAccessToken_def world_ok_def)

lemma world_ok_token_env:
  "newAccessToken_env world_ok policy0 = ([Do (token_request policy0)], ''tok'', None)"
  by (simp add: newAccessToken_env_def world_ok_def)

lemma keep_old1: "decide oor_amd64 old1 policy0 = Some keep"
  by (simp add: decide_eq fixture_defs run_defs)

lemma keep_old2: "decide oor_amd64 old2 policy0 = Some keep"
  by (simp add: decide_eq fixture_defs run_defs floor_eq_iff)

lemma keep_old3: "decide oor_amd64 old3 policy0 = Some keep"
  by (simp add: decide_eq fixture_defs run_defs)

lemma not_dry_policy0: "\<not> DryRun policy0"
  by (simp add: policy0_def)

lemma more_pages_first: "list_all more_pages [page_of [old1, old2] ''X'']"
  by (simp add: more_pages_def page_of_def)

lemma List_two_pages:
  "List world_ok policy0 two_pages =
     ([Fmt_Println ''Fetching comments...'', Do (listing_request policy0 []), Send old1,
       Send old2, Do (listing_request policy0 ''X'')], True)"
  by (simp add: List_def two_pages_def page_of_def world_ok_def)

lemma List_env_two_pages:
  "List_env world_ok policy0 two_pages =
     ([Log_Println ''Fetching comments...'', Do (listing_request policy0 []), Send old1,
       Send old2, Do (listing_request policy0 ''X'')], True)"
  by (simp add: List_env_def two_pages_def page_of_def world_ok_def)


section \<open>The workflow, the stream and the entry points\<close>

text \<open>
  Claim C2. When the disposition of a comment is not \<open>keep\<close>, or the dry-run flag is
  set, neither \<^verbatim>\<open>Edit\<close> nor \<^verbatim>\<open>Delete\<close> hands a request to the client, in either version.
  With dry-run set, the loop of a whole run issues no request at all, whatever the pages
  hold. The only requests of the producer are the GET requests of the listing.
\<close>

theorem C2_no_mutating_calls:
  "(decide oor c config \<noteq> Some keep \<or> DryRun config \<longrightarrow>
      requests (Edit oor w c tok config) = [] \<and>
      requests (Delete oor w c tok config) = [] \<and>
      requests (Edit_env oor w c tok config) = [] \<and>
      requests (Delete_env oor w c tok config) = [])
   \<and> (DryRun config \<longrightarrow>
      requests (consumer (main oor w replies (Inr config))) = [] \<and>
      requests (consumer (main_env oor w replies config)) = [])
   \<and> (\<forall>r \<in> set (requests (producer (main oor w replies (Inr config)))). Method r = ''GET'')
   \<and> (\<forall>r \<in> set (requests (producer (main_env oor w replies config))). Method r = ''GET'')"
proof -
  have a: "requests (Edit oor w c tok config) = [] \<and>
      requests (Delete oor w c tok config) = [] \<and>
      requests (Edit_env oor w c tok config) = [] \<and>
      requests (Delete_env oor w c tok config) = []"
    if "decide oor c config \<noteq> Some keep \<or> DryRun config"
    using that
    by (simp add: requests_Edit requests_Delete requests_Edit_env requests_Delete_env
        decide_eq decide_env_eq)
  have b: "requests (consumer (main oor w replies (Inr config))) = []" if "DryRun config"
    using that by (simp add: main_Inr requests_main_loop requests_Edit requests_Delete)
  have c: "requests (consumer (main_env oor w replies config)) = []" if "DryRun config"
    using that
    by (simp add: consumer_main_env requests_main_loop_env requests_Edit_env
        requests_Delete_env split: option.splits)
  have d: "\<forall>r \<in> set (requests (producer (main oor w replies (Inr config)))). Method r = ''GET''"
    by (simp add: main_Inr List_GET)
  have e: "\<forall>r \<in> set (requests (producer (main_env oor w replies config))). Method r = ''GET''"
    by (simp add: producer_main_env List_env_GET split: option.splits)
  from a b c d e show ?thesis by blast
qed

text \<open>
  Claim C2 at a comment with a preserved identifier, and at a dry run over two comments
  that would otherwise be removed.
\<close>

theorem C2_no_mutating_calls_witness:
  "decide oor_amd64 (comment_of ''k1'' ''x'' 1 1300000000) policy0 \<noteq> Some keep
   \<and> requests (Edit oor_amd64 world_ok (comment_of ''k1'' ''x'' 1 1300000000) ''tok'' policy0) = []
   \<and> requests (Delete oor_amd64 world_ok (comment_of ''k1'' ''x'' 1 1300000000) ''tok'' policy0) = []
   \<and> DryRun (policy0\<lparr>DryRun := True\<rparr>)
   \<and> requests (consumer (main oor_amd64 world_ok two_pages (Inr (policy0\<lparr>DryRun := True\<rparr>)))) = []
   \<and> requests (consumer (main_env oor_amd64 world_ok two_pages (policy0\<lparr>DryRun := True\<rparr>))) = []
   \<and> listing_request policy0 ''X'' \<in> set (requests (producer (main oor_amd64 world_ok two_pages (Inr policy0))))
   \<and> Method (listing_request policy0 ''X'') = ''GET''"
proof -
  have g: "listing_request policy0 ''X'' \<in>
      set (requests (producer (main oor_amd64 world_ok two_pages (Inr policy0))))"
    by (simp add: main_Inr List_two_pages)
  have s: "decide oor_amd64 (comment_of ''k1'' ''x'' 1 1300000000) policy0 \<noteq> Some keep"
    by (simp add: decide_eq comment_of_def policy0_def)
  have d: "DryRun (policy0\<lparr>DryRun := True\<rparr>)"
    by simp
  from s d g
    C2_no_mutating_calls [of oor_amd64 "comment_of ''k1'' ''x'' 1 1300000000" policy0 world_ok
      "''tok''" two_pages]
    C2_no_mutating_calls [of oor_amd64 old1 "policy0\<lparr>DryRun := True\<rparr>" world_ok
      "''tok''" two_pages]
  show ?thesis by blast
qed

text \<open>
  Claim C3 does not hold for every sequence of pages. The first page carries a cursor
  that holds a line feed; \<^verbatim>\<open>http.NewRequest\<close> refuses the URL of the next request, the
  producer prints the failure and closes the channel. One request is issued and the
  comment of the second page is never sent.
\<close>

theorem C3_refused_cursor_counterexample:
  "list_all more_pages [page_of [old1] [CHR 0x0A]]
   \<and> last_page (page_of [old2] [])
   \<and> concat (map comments_of control_cursor_pages) = [old1, old2]
   \<and> sent (fst (List world_strict policy0 control_cursor_pages)) = [old1]
   \<and> length (requests (fst (List world_strict policy0 control_cursor_pages))) = 1
   \<and> List world_strict policy0 control_cursor_pages =
       ([Fmt_Println ''Fetching comments...'',
         Do \<lparr>Method = ''GET'', URL = ''https://reddit.com/user/snoo/comments.json'',
             Header = [(''User-Agent'', ''ShredditGoClient'')], BasicAuth = None, Form = None\<rparr>,
         Send old1,
         Fmt_Printf ''Failed to create request: %v''
           [AErr ''net/url: invalid control character in URL'']], True)"
  by (simp add: List_def control_cursor_pages_def page_of_def world_strict_def world_ok_def
      listing_request_def listing_uri_def policy0_def more_pages_def last_page_def
      comments_of_def)

text \<open>
  Claim C3, amended. Let the listing answer with pages that each hold a comment and a
  cursor, and let the requests for these pages be accepted by \<^verbatim>\<open>http.NewRequest\<close>.
  If the next request is accepted too and its page holds no comment or no cursor, the
  producer requests the first page at the listing URL of the user without query and
  each further page at that URL with \<^verbatim>\<open>?after=\<close> and the cursor of the page before,
  sends the comments of each page in page order before the next request, and closes
  the channel after the comments of the last page, with one request per page and none
  after it. If the next request is refused, the producer prints the failure and closes
  the channel after the comments of the pages received, with no further request. In
  both cases the run ends normally.
\<close>

theorem C3_stream_order_and_termination:
  assumes "list_all more_pages pre" and "accepted w config [] pre"
  shows "(last_page fin \<and>
      NewRequest_error w ''GET'' (listing_uri config (next_cursor [] pre)) = None \<longrightarrow>
        List w config (pre @ fin # rest) =
          (Fmt_Println ''Fetching comments...'' # page_events config [] (pre @ [fin]), True)
      \<and> List_env w config (pre @ fin # rest) =
          (Log_Println ''Fetching comments...'' # page_events config [] (pre @ [fin]), True)
      \<and> sent (fst (List w config (pre @ fin # rest))) = concat (map comments_of (pre @ [fin]))
      \<and> requests (fst (List w config (pre @ fin # rest))) =
          map (\<lambda>cur. \<lparr>Method = ''GET'',
                       URL = ''https://reddit.com/user/'' @ Username config @
                             ''/comments.json'' @ (if cur = [] then [] else ''?after='' @ cur),
                       Header = [(''User-Agent'', UserAgent config)],
                       BasicAuth = None, Form = None\<rparr>)
            ([] # map cursor_of pre)
      \<and> length (requests (fst (List w config (pre @ fin # rest)))) = length pre + 1
      \<and> status (main oor w (pre @ fin # rest) (Inr config)) = Exit0)
   \<and> (NewRequest_error w ''GET'' (listing_uri config (next_cursor [] pre)) = Some err \<longrightarrow>
        List w config (pre @ rest) =
          (Fmt_Println ''Fetching comments...'' # page_events config [] pre @
           [Fmt_Printf ''Failed to create request: %v'' [AErr err]], True)
      \<and> List_env w config (pre @ rest) =
          (Log_Println ''Fetching comments...'' # page_events config [] pre @
           [Log_Printf ''Failed to create request: %v'' [AErr err]], True)
      \<and> sent (fst (List w config (pre @ rest))) = concat (map comments_of pre)
      \<and> requests (fst (List w config (pre @ rest))) =
          map (\<lambda>cur. \<lparr>Method = ''GET'',
                       URL = ''https://reddit.com/user/'' @ Username config @
                             ''/comments.json'' @ (if cur = [] then [] else ''?after='' @ cur),
                       Header = [(''User-Agent'', UserAgent config)],
                       BasicAuth = None, Form = None\<rparr>)
            (butlast ([] # map cursor_of pre))
      \<and> status (main oor w (pre @ rest) (Inr config)) = Exit0)"
proof -
  note P = List_loop_pages_accepted [OF assms]
  have A: "List w config (pre @ fin # rest) =
          (Fmt_Println ''Fetching comments...'' # page_events config [] (pre @ [fin]), True)"
      "List_env w config (pre @ fin # rest) =
          (Log_Println ''Fetching comments...'' # page_events config [] (pre @ [fin]), True)"
    if "last_page fin"
      and ok: "NewRequest_error w ''GET'' (listing_uri config (next_cursor [] pre)) = None"
    using that
    by (simp_all add: List_def List_env_def P List_loop_last [OF ok] page_events_append
        del: List_loop.simps List_loop_env.simps)
  have B: "List w config (pre @ rest) =
          (Fmt_Println ''Fetching comments...'' # page_events config [] pre @
           [Fmt_Printf ''Failed to create request: %v'' [AErr err]], True)"
      "List_env w config (pre @ rest) =
          (Log_Println ''Fetching comments...'' # page_events config [] pre @
           [Log_Printf ''Failed to create request: %v'' [AErr err]], True)"
    if no: "NewRequest_error w ''GET'' (listing_uri config (next_cursor [] pre)) = Some err"
    by (simp_all add: List_def List_env_def P List_loop_refused [OF no]
        del: List_loop.simps List_loop_env.simps)
  have a: "sent (fst (List w config (pre @ fin # rest))) = concat (map comments_of (pre @ [fin]))
      \<and> requests (fst (List w config (pre @ fin # rest))) =
          map (listing_request config) ([] # map cursor_of pre)
      \<and> length (requests (fst (List w config (pre @ fin # rest)))) = length pre + 1
      \<and> status (main oor w (pre @ fin # rest) (Inr config)) = Exit0"
    if "last_page fin"
      and "NewRequest_error w ''GET'' (listing_uri config (next_cursor [] pre)) = None"
    by (simp add: A(1) [OF that] main_Inr sent_page_events requests_page_events
        del: page_events.simps)
  have b: "sent (fst (List w config (pre @ rest))) = concat (map comments_of pre)
      \<and> requests (fst (List w config (pre @ rest))) =
          map (listing_request config) (butlast ([] # map cursor_of pre))
      \<and> status (main oor w (pre @ rest) (Inr config)) = Exit0"
    if "NewRequest_error w ''GET'' (listing_uri config (next_cursor [] pre)) = Some err"
    by (simp add: B(1) [OF that] main_Inr sent_append requests_append sent_page_events
        requests_page_events_butlast del: page_events.simps)
  show ?thesis
    using A B a b unfolding listing_request_explicit by blast
qed

text \<open>
  Claim C3, amended, at the example of the specification (two comments with cursor
  \<open>X\<close>, then an empty page: two comments are sent and two requests are issued), and
  at the listing whose first cursor is refused.
\<close>

theorem C3_stream_order_and_termination_witness:
  "list_all more_pages [page_of [old1, old2] ''X'']
   \<and> accepted world_ok policy0 [] [page_of [old1, old2] ''X'']
   \<and> last_page (page_of [] [])
   \<and> sent (fst (List world_ok policy0 two_pages)) = [old1, old2]
   \<and> requests (fst (List world_ok policy0 two_pages)) =
       [\<lparr>Method = ''GET'', URL = ''https://reddit.com/user/snoo/comments.json'',
         Header = [(''User-Agent'', ''ShredditGoClient'')], BasicAuth = None, Form = None\<rparr>,
        \<lparr>Method = ''GET'', URL = ''https://reddit.com/user/snoo/comments.json?after=X'',
         Header = [(''User-Agent'', ''ShredditGoClient'')], BasicAuth = None, Form = None\<rparr>]
   \<and> snd (List world_ok policy0 two_pages) = True
   \<and> list_all more_pages [page_of [old1] [CHR 0x0A]]
   \<and> accepted world_strict policy0 [] [page_of [old1] [CHR 0x0A]]
   \<and> sent (fst (List world_strict policy0 control_cursor_pages)) = [old1]
   \<and> status (main oor_amd64 world_strict control_cursor_pages (Inr policy0)) = Exit0"
proof -
  have l: "last_page (page_of [] [])"
    by (simp add: last_page_def page_of_def)
  have a: "accepted world_ok policy0 [] [page_of [old1, old2] ''X'']"
    by (simp add: world_ok_NewRequest)
  have n: "NewRequest_error world_ok ''GET''
      (listing_uri policy0 (next_cursor [] [page_of [old1, old2] ''X''])) = None"
    by (simp add: world_ok_NewRequest)
  have p: "two_pages = [page_of [old1, old2] ''X''] @ page_of [] [] # []"
    by (simp add: two_pages_def)
  have v: "comments_of (page_of [old1, old2] ''X'') = [old1, old2]"
      "comments_of (page_of [] []) = []"
      "cursor_of (page_of [old1, old2] ''X'') = ''X''"
      "Username policy0 = ''snoo''" "UserAgent policy0 = ''ShredditGoClient''"
    by (simp_all add: comments_of_def cursor_of_def page_of_def policy0_def)
  note T = C3_stream_order_and_termination [OF more_pages_first a,
      where fin = "page_of [] []" and rest = "[]" and oor = oor_amd64,
      THEN conjunct1, rule_format, OF conjI, OF l n,
      unfolded p [symmetric]]
  have m2: "list_all more_pages [page_of [old1] [CHR 0x0A]]"
    by (simp add: more_pages_def page_of_def)
  have a2: "accepted world_strict policy0 [] [page_of [old1] [CHR 0x0A]]"
    by (simp add: world_strict_def world_ok_def listing_uri_def policy0_def)
  have n2: "NewRequest_error world_strict ''GET''
      (listing_uri policy0 (next_cursor [] [page_of [old1] [CHR 0x0A]])) =
      Some ''net/url: invalid control character in URL''"
    by (simp add: world_strict_def world_ok_def listing_uri_def cursor_of_def page_of_def)
  have p2: "control_cursor_pages = [page_of [old1] [CHR 0x0A]] @ [page_of [old2] []]"
    by (simp add: control_cursor_pages_def)
  have v2: "comments_of (page_of [old1] [CHR 0x0A]) = [old1]"
    by (simp add: comments_of_def page_of_def)
  note U = C3_stream_order_and_termination [OF m2 a2,
      where err = "''net/url: invalid control character in URL''"
        and rest = "[page_of [old2] []]" and oor = oor_amd64,
      THEN conjunct2, rule_format, OF n2, unfolded p2 [symmetric]]
  have c: "page_events policy0 [] two_pages =
      [Do (listing_request policy0 []), Send old1, Send old2, Do (listing_request policy0 ''X'')]"
    by (simp add: two_pages_def v)
  from T U more_pages_first a l m2 a2
  show ?thesis
    by (simp add: v v2 c listing_request_def listing_uri_def)
qed

text \<open>
  Claim C5 is violated by \<^verbatim>\<open>main.go\<close>. The token endpoint answers with a non-empty error
  field, so \<^verbatim>\<open>newAccessToken\<close> returns an error and the empty token. \<^verbatim>\<open>main\<close> of
  \<^verbatim>\<open>main.go\<close> goes on: it requests both pages, issues the edit and delete requests of
  both comments with the empty token, and returns normally. The environment-only
  version stops with \<^verbatim>\<open>log.Fatalf\<close> on the same input and issues nothing further.
\<close>

theorem C5_main_go_continues_after_failed_authentication:
  "newAccessToken world_auth_error policy0 =
     ([Do (token_request policy0)], [], Some ''error in the response: bad password'')
   \<and> requests (producer (main oor_amd64 world_auth_error two_pages (Inr policy0))) =
       [listing_request policy0 [], listing_request policy0 ''X'']
   \<and> requests (consumer (main oor_amd64 world_auth_error two_pages (Inr policy0))) =
       [edit_request old1 [] policy0, del_request old1 [] policy0,
        edit_request old2 [] policy0, del_request old2 [] policy0]
   \<and> status (main oor_amd64 world_auth_error two_pages (Inr policy0)) = Exit0
   \<and> main_env oor_amd64 world_auth_error two_pages policy0 =
       \<lparr>startup = [Do (token_request policy0),
                   Log_Fatalf ''Failed to obtain access token: %v'' [AErr ''bad password'']],
        producer = [], consumer = [], status = Exit1\<rparr>"
proof -
  have t: "newAccessToken world_auth_error policy0 =
     ([Do (token_request policy0)], [], Some ''error in the response: bad password'')"
    by (simp add: newAccessToken_def world_auth_error_def world_ok_def)
  have l: "List world_auth_error policy0 two_pages =
     ([Fmt_Println ''Fetching comments...'', Do (listing_request policy0 []), Send old1,
       Send old2, Do (listing_request policy0 ''X'')], True)"
    by (simp add: List_def two_pages_def page_of_def world_auth_error_def world_ok_def)
  have k1: "decide oor_amd64 old1 policy0 = Some keep"
    by (simp add: decide_eq fixture_defs run_defs)
  have k2: "decide oor_amd64 old2 policy0 = Some keep"
    by (simp add: decide_eq fixture_defs run_defs floor_eq_iff)
  have nd: "\<not> DryRun policy0"
    by (simp add: policy0_def)
  have nr: "NewRequest_error world_auth_error = (\<lambda>m u. None)"
    by (simp add: world_auth_error_def world_ok_def)
  have c: "requests (consumer (main oor_amd64 world_auth_error two_pages (Inr policy0))) =
       [edit_request old1 [] policy0, del_request old1 [] policy0,
        edit_request old2 [] policy0, del_request old2 [] policy0]"
    by (simp add: main_Inr t l requests_append requests_Edit requests_Delete k1 k2 nd nr)
  have e: "main_env oor_amd64 world_auth_error two_pages policy0 =
       \<lparr>startup = [Do (token_request policy0),
                   Log_Fatalf ''Failed to obtain access token: %v'' [AErr ''bad password'']],
        producer = [], consumer = [], status = Exit1\<rparr>"
    by (simp add: main_env_def newAccessToken_env_def world_auth_error_def world_ok_def)
  show ?thesis
    using t c e by (simp add: main_Inr l)
qed




text \<open>
  Claim C7. Let the edit and delete requests be constructible. For a comment to remove,
  outside a dry run, \<^verbatim>\<open>Edit\<close> prints a line, hands the edit request of the comment to the
  client and prints exactly one line that depends on the answer: a transport error, an
  undecodable body and a missing success marker each give a line of failure and nothing
  else. \<^verbatim>\<open>Delete\<close> then hands the delete request of the same comment to the client,
  whatever the edit endpoint answered, and the loop goes on with the next comment. The
  requests of the loop over a list of comments, and so of a run over the comments of
  the stream, are the edit and delete requests of every comment to remove, in order.
  Replacing the answers of the edit and delete endpoints by any others changes neither
  the producer's events, nor the requests of the loop, nor the way the run ends.
\<close>

theorem C7_mutation_failures_isolated:
  assumes "NewRequest_error w ''POST'' ''https://oauth.reddit.com/api/editusertext?raw_json=1'' = None"
    and "NewRequest_error w ''POST'' ''https://oauth.reddit.com/api/del'' = None"
  shows "(decide oor c config = Some keep \<and> \<not> DryRun config \<longrightarrow>
       Edit oor w c tok config =
         map (\<lambda>s. Fmt_Printf ''Subreddit: %v\<newline>'' [AStr s]) (SkipSubreddits config) @
         [Fmt_Println ''Editing...'',
          Do \<lparr>Method = ''POST'', URL = ''https://oauth.reddit.com/api/editusertext?raw_json=1'',
              Header = [(''Authorization'', ''Bearer '' @ tok), (''User-Agent'', UserAgent config),
                        (''Content-Type'', ''application/x-www-form-urlencoded'')],
              BasicAuth = None,
              Form = Some [(''thing_id'', ''t1_'' @ ID c), (''text'', ReplacementComment config)]\<rparr>,
          (case edit_endpoint w (edit_request c tok config) of
             Edit_Do_error err \<Rightarrow> Fmt_Printf ''Failed to edit comment: %v\<newline>'' [AErr err]
           | Edit_decode_error err \<Rightarrow> Fmt_Printf ''Failed to decode response: %v\<newline>'' [AErr err]
           | Edit_json res \<Rightarrow>
               if map_of res ''jquery'' = None
               then Fmt_Printf ''Failed to edit: %v\<newline>'' [AObj res]
               else Fmt_Printf ''Edited successfully.\<newline>'' [])] \<and>
       Delete oor w c tok config =
         map (\<lambda>s. Fmt_Printf ''Subreddit: %v\<newline>'' [AStr s]) (SkipSubreddits config) @
         [Fmt_Println ''Deleting...'',
          Do \<lparr>Method = ''POST'', URL = ''https://oauth.reddit.com/api/del'',
              Header = [(''Authorization'', ''Bearer '' @ tok), (''User-Agent'', UserAgent config),
                        (''Content-Type'', ''application/x-www-form-urlencoded'')],
              BasicAuth = None, Form = Some [(''id'', ''t1_'' @ ID c)]\<rparr>] @
         (case del_endpoint w (del_request c tok config) of
            Some err \<Rightarrow> [Fmt_Printf ''Failed to delete comment: %v\<newline>'' [AErr err]]
          | None \<Rightarrow> []) \<and>
       requests (Edit oor w c tok config @ Delete oor w c tok config) =
         [edit_request c tok config, del_request c tok config] \<and>
       requests (Edit_env oor w c tok config @ Delete_env oor w c tok config) =
         [edit_request c tok config, del_request c tok config])
   \<and> main_loop oor w tok config (c # cs) =
       Edit oor w c tok config @ Delete oor w c tok config @ main_loop oor w tok config cs
   \<and> requests (main_loop oor w tok config cs) =
       concat (map (\<lambda>c. if decide oor c config = Some keep \<and> \<not> DryRun config
                         then [edit_request c tok config, del_request c tok config] else []) cs)
   \<and> requests (main_loop_env oor w tok config cs) =
       concat (map (\<lambda>c. if decide oor c config = Some keep \<and> \<not> DryRun config
                         then [edit_request c tok config, del_request c tok config] else []) cs)
   \<and> requests (consumer (main oor w replies (Inr config))) =
       concat (map (\<lambda>c. if decide oor c config = Some keep \<and> \<not> DryRun config
                         then [edit_request c (fst (snd (newAccessToken w config))) config,
                               del_request c (fst (snd (newAccessToken w config))) config]
                         else [])
                (sent (producer (main oor w replies (Inr config)))))
   \<and> producer (main oor (w\<lparr>edit_endpoint := f, del_endpoint := g\<rparr>) replies loaded) =
       producer (main oor w replies loaded)
   \<and> status (main oor (w\<lparr>edit_endpoint := f, del_endpoint := g\<rparr>) replies loaded) =
       status (main oor w replies loaded)
   \<and> requests (consumer (main oor (w\<lparr>edit_endpoint := f, del_endpoint := g\<rparr>) replies loaded)) =
       requests (consumer (main oor w replies loaded))"
proof -
  have r: "requests (consumer (main oor w replies (Inr config))) =
       concat (map (\<lambda>c. if decide oor c config = Some keep \<and> \<not> DryRun config
                         then [edit_request c (fst (snd (newAccessToken w config))) config,
                               del_request c (fst (snd (newAccessToken w config))) config]
                         else [])
                (sent (producer (main oor w replies (Inr config)))))"
    by (simp only: main_Inr run.simps requests_main_loop requests_workflow(1) [OF assms])
  have a: "requests (main_loop oor w tok config cs) =
       concat (map (\<lambda>c. if decide oor c config = Some keep \<and> \<not> DryRun config
                         then [edit_request c tok config, del_request c tok config] else []) cs)"
    by (simp only: requests_main_loop requests_workflow(1) [OF assms])
  have b: "requests (main_loop_env oor w tok config cs) =
       concat (map (\<lambda>c. if decide oor c config = Some keep \<and> \<not> DryRun config
                         then [edit_request c tok config, del_request c tok config] else []) cs)"
    by (simp only: requests_main_loop_env requests_workflow(2) [OF assms])
  have c: "requests (Edit oor w c tok config @ Delete oor w c tok config) =
         [edit_request c tok config, del_request c tok config]"
    if "decide oor c config = Some keep \<and> \<not> DryRun config"
    using that requests_workflow(1) [OF assms, of oor c tok config]
    by (simp add: requests_append)
  have d: "requests (Edit_env oor w c tok config @ Delete_env oor w c tok config) =
         [edit_request c tok config, del_request c tok config]"
    if "decide oor c config = Some keep \<and> \<not> DryRun config"
    using that requests_workflow(2) [OF assms, of oor c tok config]
    by (simp add: requests_append)
  have e: "producer (main oor (w\<lparr>edit_endpoint := f, del_endpoint := g\<rparr>) replies loaded) =
       producer (main oor w replies loaded) \<and>
     status (main oor (w\<lparr>edit_endpoint := f, del_endpoint := g\<rparr>) replies loaded) =
       status (main oor w replies loaded)"
    by (rule producer_status_world)
  have h: "requests (consumer (main oor (w\<lparr>edit_endpoint := f, del_endpoint := g\<rparr>) replies loaded)) =
       requests (consumer (main oor w replies loaded))"
    by (rule requests_consumer_world)
  have k: "main_loop oor w tok config (c # cs) =
       Edit oor w c tok config @ Delete oor w c tok config @ main_loop oor w tok config cs"
    by simp
  note E = Edit_kept [OF _ _ assms(1), of oor c config tok, unfolded requests_explicit(1)]
  note D = Delete_kept [OF _ _ assms(2), of oor c config tok, unfolded requests_explicit(2)]
  show ?thesis
    using a b c d e h r k E D unfolding requests_explicit [symmetric] by blast
qed

text \<open>
  Claim C7 at three comments where the answer to the edit of the second carries no
  success marker: the failure is printed, the delete request of the second comment and
  both requests of the third are issued.
\<close>

theorem C7_mutation_failures_isolated_witness:
  "decide oor_amd64 old2 policy0 = Some keep \<and> \<not> DryRun policy0
   \<and> edit_endpoint world_edit2_fails (edit_request old2 ''tok'' policy0) =
       Edit_json [(''error'', ''403'')]
   \<and> Edit oor_amd64 world_edit2_fails old2 ''tok'' policy0 =
       [Fmt_Printf ''Subreddit: %v\<newline>'' [AStr ''pics''],
        Fmt_Printf ''Subreddit: %v\<newline>'' [AStr ''mod_only''],
        Fmt_Println ''Editing...'',
        Do \<lparr>Method = ''POST'', URL = ''https://oauth.reddit.com/api/editusertext?raw_json=1'',
            Header = [(''Authorization'', ''Bearer tok''), (''User-Agent'', ''ShredditGoClient''),
                      (''Content-Type'', ''application/x-www-form-urlencoded'')],
            BasicAuth = None, Form = Some [(''thing_id'', ''t1_c2''), (''text'', ''gone'')]\<rparr>,
        Fmt_Printf ''Failed to edit: %v\<newline>'' [AObj [(''error'', ''403'')]]]
   \<and> Delete oor_amd64 world_edit2_fails old2 ''tok'' policy0 =
       [Fmt_Printf ''Subreddit: %v\<newline>'' [AStr ''pics''],
        Fmt_Printf ''Subreddit: %v\<newline>'' [AStr ''mod_only''],
        Fmt_Println ''Deleting...'',
        Do \<lparr>Method = ''POST'', URL = ''https://oauth.reddit.com/api/del'',
            Header = [(''Authorization'', ''Bearer tok''), (''User-Agent'', ''ShredditGoClient''),
                      (''Content-Type'', ''application/x-www-form-urlencoded'')],
            BasicAuth = None, Form = Some [(''id'', ''t1_c2'')]\<rparr>]
   \<and> requests (main_loop oor_amd64 world_edit2_fails ''tok'' policy0 [old1, old2, old3]) =
       [edit_request old1 ''tok'' policy0, del_request old1 ''tok'' policy0,
        edit_request old2 ''tok'' policy0, del_request old2 ''tok'' policy0,
        edit_request old3 ''tok'' policy0, del_request old3 ''tok'' policy0]"
proof -
  have e: "NewRequest_error world_edit2_fails ''POST''
             ''https://oauth.reddit.com/api/editusertext?raw_json=1'' = None"
    by (simp add: world_edit2_fails_NewRequest)
  have d: "NewRequest_error world_edit2_fails ''POST'' ''https://oauth.reddit.com/api/del'' = None"
    by (simp add: world_edit2_fails_NewRequest)
  have f: "edit_endpoint world_edit2_fails (edit_request old2 ''tok'' policy0) =
     Edit_json [(''error'', ''403'')]"
    by (simp add: world_edit2_fails_def edit_request_def Fullname_def old2_def comment_of_def
        policy0_def)
  have g: "del_endpoint world_edit2_fails (del_request old2 ''tok'' policy0) = None"
    by (simp add: world_edit2_fails_def world_ok_def)
  have v: "SkipSubreddits policy0 = [''pics'', ''mod_only'']" "UserAgent policy0 = ''ShredditGoClient''"
      "ReplacementComment policy0 = ''gone''" "ID old2 = ''c2''"
    by (simp_all add: policy0_def old2_def comment_of_def)
  note T = C7_mutation_failures_isolated [OF e d, where oor = oor_amd64 and c = old2
      and config = policy0 and tok = "''tok''" and cs = "[old1, old2, old3]"
      and replies = "[]" and loaded = "Inr policy0"
      and f = "edit_endpoint world_ok" and g = "del_endpoint world_ok"]
  from T f g keep_old2 not_dry_policy0
  show ?thesis
    by (simp add: keep_old1 keep_old3 v del: main_loop.simps main_loop_env.simps)
qed

text \<open>
  The requests and pauses of the two loops. The environment-only version sleeps 15
  seconds after every comment, removed or skipped; the loop of \<^verbatim>\<open>main.go\<close> issues the
  same requests and never sleeps.
\<close>

lemma pacing_of_the_loops:
  assumes "NewRequest_error w ''POST'' ''https://oauth.reddit.com/api/editusertext?raw_json=1'' = None"
    and "NewRequest_error w ''POST'' ''https://oauth.reddit.com/api/del'' = None"
  shows "paced (main_loop_env oor w tok config cs) =
       concat (map (\<lambda>c. (if decide oor c config = Some keep \<and> \<not> DryRun config
                          then [Do (edit_request c tok config), Do (del_request c tok config)]
                          else []) @ [Sleep 15]) cs)
   \<and> paced (consumer (main_env oor w replies config)) =
       concat (map (\<lambda>c. (if decide oor c config = Some keep \<and> \<not> DryRun config
                          then [Do (edit_request c (fst (snd (newAccessToken_env w config))) config),
                                Do (del_request c (fst (snd (newAccessToken_env w config))) config)]
                          else []) @ [Sleep 15])
                (sent (producer (main_env oor w replies config))))
   \<and> paced (main_loop oor w tok config cs) =
       concat (map (\<lambda>c. if decide oor c config = Some keep \<and> \<not> DryRun config
                         then [Do (edit_request c tok config), Do (del_request c tok config)]
                         else []) cs)
   \<and> Sleep n \<notin> set (consumer (main oor w replies loaded))"
proof -
  note a = paced_main_loop_env_requests [OF assms]
  have b: "paced (main_loop oor w tok config cs) =
       concat (map (\<lambda>c. if decide oor c config = Some keep \<and> \<not> DryRun config
                         then [Do (edit_request c tok config), Do (del_request c tok config)]
                         else []) cs)"
    by (simp add: paced_main_loop requests_main_loop requests_workflow(1) [OF assms]
        map_Do_concat if_distrib cong: if_cong)
  have c: "paced (consumer (main_env oor w replies config)) =
       concat (map (\<lambda>c. (if decide oor c config = Some keep \<and> \<not> DryRun config
                          then [Do (edit_request c (fst (snd (newAccessToken_env w config))) config),
                                Do (del_request c (fst (snd (newAccessToken_env w config))) config)]
                          else []) @ [Sleep 15])
                (sent (producer (main_env oor w replies config))))"
  proof (cases "snd (snd (newAccessToken_env w config))")
    case None
    then show ?thesis by (simp only: main_env_ok run.simps a)
  next
    case (Some e)
    then show ?thesis by (simp add: main_env_failed)
  qed
  from a [of oor tok config cs] b c no_Sleep_main [of n oor w replies loaded]
  show ?thesis by blast
qed

text \<open>
  Claim C8 is violated by \<^verbatim>\<open>main.go\<close>, whose pause is commented out under the comment
  that announces it. In a run over two comments to remove, the delete request of the
  first is directly followed by the edit request of the second and the loop never
  sleeps. The environment-only version sleeps 15 seconds after each comment on the same
  input.
\<close>

theorem C8_main_go_does_not_pause:
  "paced (consumer (main oor_amd64 world_ok two_pages (Inr policy0))) =
     [Do (edit_request old1 ''tok'' policy0), Do (del_request old1 ''tok'' policy0),
      Do (edit_request old2 ''tok'' policy0), Do (del_request old2 ''tok'' policy0)]
   \<and> Sleep 15 \<notin> set (consumer (main oor_amd64 world_ok two_pages (Inr policy0)))
   \<and> paced (consumer (main_env oor_amd64 world_ok two_pages policy0)) =
     [Do (edit_request old1 ''tok'' policy0), Do (del_request old1 ''tok'' policy0), Sleep 15,
      Do (edit_request old2 ''tok'' policy0), Do (del_request old2 ''tok'' policy0), Sleep 15]"
proof -
  have a: "paced (consumer (main oor_amd64 world_ok two_pages (Inr policy0))) =
     [Do (edit_request old1 ''tok'' policy0), Do (del_request old1 ''tok'' policy0),
      Do (edit_request old2 ''tok'' policy0), Do (del_request old2 ''tok'' policy0)]"
    by (simp add: main_Inr List_two_pages world_ok_token paced_append paced_workflow
      requests_Edit requests_Delete keep_old1 keep_old2 not_dry_policy0 world_ok_NewRequest)
  have b: "paced (consumer (main_env oor_amd64 world_ok two_pages policy0)) =
     [Do (edit_request old1 ''tok'' policy0), Do (del_request old1 ''tok'' policy0), Sleep 15,
      Do (edit_request old2 ''tok'' policy0), Do (del_request old2 ''tok'' policy0), Sleep 15]"
    by (simp add: consumer_main_env world_ok_token_env List_env_two_pages paced_append
      paced_workflow requests_Edit_env requests_Delete_env keep_env
      keep_old1 keep_old2 not_dry_policy0 world_ok_NewRequest)
  have c: "Sleep 15 \<notin> set (consumer (main oor_amd64 world_ok two_pages (Inr policy0)))"
    by (rule no_Sleep_main)
  from a b c show ?thesis by simp
qed

text \<open>
  What the two versions share. When the token exchange of \<^verbatim>\<open>main.go\<close> succeeds, the
  environment-only version obtains the same token, and on the same policy and replies
  both versions decide alike for every comment, each goroutine issues the same requests
  in the same order, the same comments are delivered and the runs end the same way.
\<close>

lemma same_requests_after_successful_authentication:
  assumes "snd (snd (newAccessToken w config)) = None"
  shows "newAccessToken_env w config = newAccessToken w config
   \<and> decide_env oor c config = decide oor c config
   \<and> requests (startup (main_env oor w replies config)) =
       requests (startup (main oor w replies (Inr config)))
   \<and> requests (producer (main_env oor w replies config)) =
       requests (producer (main oor w replies (Inr config)))
   \<and> sent (producer (main_env oor w replies config)) =
       sent (producer (main oor w replies (Inr config)))
   \<and> requests (consumer (main_env oor w replies config)) =
       requests (consumer (main oor w replies (Inr config)))
   \<and> status (main_env oor w replies config) = status (main oor w replies (Inr config))"
proof -
  note T = newAccessToken_same [OF assms]
  have ok: "snd (snd (newAccessToken_env w config)) = None"
    using assms by (simp add: T)
  note E = main_env_ok [OF ok, of oor replies]
  note L = List_same [of w config replies]
  have d: "decide_env oor c config = decide oor c config"
    by (simp only: decide_eq decide_env_eq)
  have s: "requests (startup (main_env oor w replies config)) =
       requests (startup (main oor w replies (Inr config)))"
    using assms by (simp add: E main_Inr T)
  have p: "requests (producer (main_env oor w replies config)) =
       requests (producer (main oor w replies (Inr config)))"
    by (simp add: E main_Inr L)
  have q: "sent (producer (main_env oor w replies config)) =
       sent (producer (main oor w replies (Inr config)))"
    by (simp add: E main_Inr L)
  have c: "requests (consumer (main_env oor w replies config)) =
       requests (consumer (main oor w replies (Inr config)))"
    by (simp add: E main_Inr L T requests_main_loop requests_main_loop_env
        requests_Edit requests_Delete requests_Edit_env requests_Delete_env
        decide_eq decide_env_eq)
  have e: "status (main_env oor w replies config) = status (main oor w replies (Inr config))"
    by (simp add: E main_Inr L)
  from T d s p q c e show ?thesis by blast
qed

text \<open>
  Claim C9 is violated by \<^verbatim>\<open>main.go\<close>. On the same policy, token and replies both
  versions issue the same edit and delete requests, but the environment-only version
  pauses after each comment and \<^verbatim>\<open>main.go\<close> does not. After a failed token exchange
  the environment-only version issues no page request and \<^verbatim>\<open>main.go\<close> issues both.
\<close>

theorem C9_versions_differ_on_same_inputs:
  "newAccessToken_env world_ok policy0 = newAccessToken world_ok policy0
   \<and> fst (snd (newAccessToken world_ok policy0)) = ''tok''
   \<and> requests (consumer (main_env oor_amd64 world_ok two_pages policy0)) =
       requests (consumer (main oor_amd64 world_ok two_pages (Inr policy0)))
   \<and> paced (consumer (main_env oor_amd64 world_ok two_pages policy0)) \<noteq>
       paced (consumer (main oor_amd64 world_ok two_pages (Inr policy0)))
   \<and> Sleep 15 \<in> set (consumer (main_env oor_amd64 world_ok two_pages policy0))
   \<and> Sleep 15 \<notin> set (consumer (main oor_amd64 world_ok two_pages (Inr policy0)))
   \<and> requests (producer (main_env oor_amd64 world_auth_error two_pages policy0)) = []
   \<and> requests (producer (main oor_amd64 world_auth_error two_pages (Inr policy0))) =
       [listing_request policy0 [], listing_request policy0 ''X'']"
proof -
  have a: "paced (consumer (main oor_amd64 world_ok two_pages (Inr policy0))) =
     [Do (edit_request old1 ''tok'' policy0), Do (del_request old1 ''tok'' policy0),
      Do (edit_request old2 ''tok'' policy0), Do (del_request old2 ''tok'' policy0)]"
    by (simp add: main_Inr List_two_pages world_ok_token paced_append paced_workflow
      requests_Edit requests_Delete keep_old1 keep_old2 not_dry_policy0 world_ok_NewRequest)
  have b: "paced (consumer (main_env oor_amd64 world_ok two_pages policy0)) =
     [Do (edit_request old1 ''tok'' policy0), Do (del_request old1 ''tok'' policy0), Sleep 15,
      Do (edit_request old2 ''tok'' policy0), Do (del_request old2 ''tok'' policy0), Sleep 15]"
    by (simp add: consumer_main_env world_ok_token_env List_env_two_pages paced_append
      paced_workflow requests_Edit_env requests_Delete_env keep_env
      keep_old1 keep_old2 not_dry_policy0 world_ok_NewRequest)
  have r1: "requests (consumer (main oor_amd64 world_ok two_pages (Inr policy0))) =
       [edit_request old1 ''tok'' policy0, del_request old1 ''tok'' policy0,
        edit_request old2 ''tok'' policy0, del_request old2 ''tok'' policy0]"
    by (simp add: main_Inr List_two_pages world_ok_token requests_append
      requests_Edit requests_Delete keep_old1 keep_old2 not_dry_policy0 world_ok_NewRequest)
  have r2: "requests (consumer (main_env oor_amd64 world_ok two_pages policy0)) =
       [edit_request old1 ''tok'' policy0, del_request old1 ''tok'' policy0,
        edit_request old2 ''tok'' policy0, del_request old2 ''tok'' policy0]"
    by (simp add: consumer_main_env world_ok_token_env List_env_two_pages requests_append
      requests_Edit_env requests_Delete_env keep_env keep_old1 keep_old2 not_dry_policy0
      world_ok_NewRequest)
  have s1: "Sleep 15 \<notin> set (consumer (main oor_amd64 world_ok two_pages (Inr policy0)))"
    by (rule no_Sleep_main)
  have "Sleep 15 \<in> set (paced (consumer (main_env oor_amd64 world_ok two_pages policy0)))"
    by (simp add: b)
  then have s2: "Sleep 15 \<in> set (consumer (main_env oor_amd64 world_ok two_pages policy0))"
    by (rule paced_subset)
  have f1: "requests (producer (main_env oor_amd64 world_auth_error two_pages policy0)) = []"
    by (simp add: main_env_def newAccessToken_env_def world_auth_error_def world_ok_def)
  have l: "List world_auth_error policy0 two_pages =
     ([Fmt_Println ''Fetching comments...'', Do (listing_request policy0 []), Send old1,
       Send old2, Do (listing_request policy0 ''X'')], True)"
    by (simp add: List_def two_pages_def page_of_def world_auth_error_def world_ok_def)
  have f2: "requests (producer (main oor_amd64 world_auth_error two_pages (Inr policy0))) =
       [listing_request policy0 [], listing_request policy0 ''X'']"
    by (simp add: main_Inr l)
  from a b r1 r2 s1 s2 f1 f2 show ?thesis
    by (simp add: world_ok_token world_ok_token_env)
qed

end
